theory Spec2Isabelle
  imports Main
begin

section \<open>JavaScript strings\<close>

text \<open>
  A JavaScript string is a sequence of UTF-16 code units. A code unit is modelled as a
  natural number, so that the bullet U+2022 of the list-item pattern and the Unicode
  white space removed by \<^verbatim>\<open>trim\<close> are single elements, as they are in the program.
  \<open>js\<close> embeds an ASCII literal.
\<close>

type_synonym jschar = nat
type_synonym jsstring = "jschar list"

abbreviation cu :: "char \<Rightarrow> jschar" where
  "cu c \<equiv> of_char c"

definition js :: "string \<Rightarrow> jsstring" where
  "js s = map of_char s"

abbreviation LF :: jschar where
  "LF \<equiv> 10"

text \<open>
  \<^verbatim>\<open>String.prototype.trim\<close> removes WhiteSpace and LineTerminator code units from both
  ends; the pattern class \<^verbatim>\<open>\s\<close> is the same set: TAB, LF, VT, FF, CR, SP, NBSP, U+1680,
  U+2000..U+200A, U+2028, U+2029, U+202F, U+205F, U+3000, U+FEFF.
\<close>

definition isWhiteSpace :: "jschar \<Rightarrow> bool" where
  "isWhiteSpace c =
     (c = 9 \<or> c = 10 \<or> c = 11 \<or> c = 12 \<or> c = 13 \<or> c = 32 \<or> c = 160 \<or> c = 0x1680 \<or>
      (0x2000 \<le> c \<and> c \<le> 0x200A) \<or> c = 0x2028 \<or> c = 0x2029 \<or> c = 0x202F \<or>
      c = 0x205F \<or> c = 0x3000 \<or> c = 0xFEFF)"

text \<open>The pattern \<^verbatim>\<open>.\<close> matches every code unit but LF, CR, U+2028 and U+2029.\<close>

definition isLineTerminator :: "jschar \<Rightarrow> bool" where
  "isLineTerminator c = (c = 10 \<or> c = 13 \<or> c = 0x2028 \<or> c = 0x2029)"

definition isDigit :: "jschar \<Rightarrow> bool" where
  "isDigit c = (cu CHR ''0'' \<le> c \<and> c \<le> cu CHR ''9'')"

definition trim :: "jsstring \<Rightarrow> jsstring" where
  "trim s = rev (dropWhile isWhiteSpace (rev (dropWhile isWhiteSpace s)))"

text \<open>
  \<^verbatim>\<open>toUpperCase\<close> reads the string as code points (a high surrogate followed by a low
  surrogate is one code point, any other code unit stands for itself), replaces each code
  point by its upper-case mapping and writes the result back as code units. The mapping
  is the full upper-case mapping of the Unicode character database, version 14.0,
  language-insensitive: a code point maps to one code point or, in the special cases, to
  several (\<open>U+00DF\<close> to \<open>SS\<close>), and a code point without a mapping stays.

  \<open>upperRanges\<close> holds the one-to-one mappings as (first, last, stride, image of first):
  the code points \<open>first, first + stride, ..., last\<close> map to \<open>image, image + stride, ...\<close>.
  \<open>upperSpecial\<close> holds the code points that map to more than one code point.
\<close>

definition isHighSurrogate :: "jschar \<Rightarrow> bool" where
  "isHighSurrogate c = (0xD800 \<le> c \<and> c \<le> 0xDBFF)"

definition isLowSurrogate :: "jschar \<Rightarrow> bool" where
  "isLowSurrogate c = (0xDC00 \<le> c \<and> c \<le> 0xDFFF)"

fun codePoints :: "jsstring \<Rightarrow> nat list" where
  "codePoints (h # l # cs) =
     (if isHighSurrogate h \<and> isLowSurrogate l
      then (0x10000 + (h - 0xD800) * 0x400 + (l - 0xDC00)) # codePoints cs
      else h # codePoints (l # cs))"
| "codePoints [c] = [c]"
| "codePoints [] = []"

definition codeUnits :: "nat \<Rightarrow> jsstring" where
  "codeUnits cp =
     (if cp < 0x10000 then [cp]
      else [0xD800 + (cp - 0x10000) div 0x400, 0xDC00 + (cp - 0x10000) mod 0x400])"

definition upperRanges :: "(nat \<times> nat \<times> nat \<times> nat) list" where
  "upperRanges =
     [(0x61, 0x7A, 1, 0x41), (0xB5, 0xB5, 1, 0x39C), (0xE0, 0xF6, 1, 0xC0),
      (0xF8, 0xFE, 1, 0xD8), (0xFF, 0xFF, 1, 0x178), (0x101, 0x12F, 2, 0x100),
      (0x131, 0x131, 1, 0x49), (0x133, 0x137, 2, 0x132), (0x13A, 0x148, 2, 0x139),
      (0x14B, 0x177, 2, 0x14A), (0x17A, 0x17E, 2, 0x179), (0x17F, 0x17F, 1, 0x53),
      (0x180, 0x180, 1, 0x243), (0x183, 0x185, 2, 0x182), (0x188, 0x188, 1, 0x187),
      (0x18C, 0x18C, 1, 0x18B), (0x192, 0x192, 1, 0x191), (0x195, 0x195, 1, 0x1F6),
      (0x199, 0x199, 1, 0x198), (0x19A, 0x19A, 1, 0x23D), (0x19E, 0x19E, 1, 0x220),
      (0x1A1, 0x1A5, 2, 0x1A0), (0x1A8, 0x1A8, 1, 0x1A7), (0x1AD, 0x1AD, 1, 0x1AC),
      (0x1B0, 0x1B0, 1, 0x1AF), (0x1B4, 0x1B6, 2, 0x1B3), (0x1B9, 0x1B9, 1, 0x1B8),
      (0x1BD, 0x1BD, 1, 0x1BC), (0x1BF, 0x1BF, 1, 0x1F7), (0x1C5, 0x1C5, 1, 0x1C4),
      (0x1C6, 0x1C6, 1, 0x1C4), (0x1C8, 0x1C8, 1, 0x1C7), (0x1C9, 0x1C9, 1, 0x1C7),
      (0x1CB, 0x1CB, 1, 0x1CA), (0x1CC, 0x1CC, 1, 0x1CA), (0x1CE, 0x1DC, 2, 0x1CD),
      (0x1DD, 0x1DD, 1, 0x18E), (0x1DF, 0x1EF, 2, 0x1DE), (0x1F2, 0x1F2, 1, 0x1F1),
      (0x1F3, 0x1F3, 1, 0x1F1), (0x1F5, 0x1F5, 1, 0x1F4), (0x1F9, 0x21F, 2, 0x1F8),
      (0x223, 0x233, 2, 0x222), (0x23C, 0x23C, 1, 0x23B), (0x23F, 0x240, 1, 0x2C7E),
      (0x242, 0x242, 1, 0x241), (0x247, 0x24F, 2, 0x246), (0x250, 0x250, 1, 0x2C6F),
      (0x251, 0x251, 1, 0x2C6D), (0x252, 0x252, 1, 0x2C70), (0x253, 0x253, 1, 0x181),
      (0x254, 0x254, 1, 0x186), (0x256, 0x257, 1, 0x189), (0x259, 0x259, 1, 0x18F),
      (0x25B, 0x25B, 1, 0x190), (0x25C, 0x25C, 1, 0xA7AB), (0x260, 0x260, 1, 0x193),
      (0x261, 0x261, 1, 0xA7AC), (0x263, 0x263, 1, 0x194), (0x265, 0x265, 1, 0xA78D),
      (0x266, 0x266, 1, 0xA7AA), (0x268, 0x268, 1, 0x197), (0x269, 0x269, 1, 0x196),
      (0x26A, 0x26A, 1, 0xA7AE), (0x26B, 0x26B, 1, 0x2C62), (0x26C, 0x26C, 1, 0xA7AD),
      (0x26F, 0x26F, 1, 0x19C), (0x271, 0x271, 1, 0x2C6E), (0x272, 0x272, 1, 0x19D),
      (0x275, 0x275, 1, 0x19F), (0x27D, 0x27D, 1, 0x2C64), (0x280, 0x280, 1, 0x1A6),
      (0x282, 0x282, 1, 0xA7C5), (0x283, 0x283, 1, 0x1A9), (0x287, 0x287, 1, 0xA7B1),
      (0x288, 0x288, 1, 0x1AE), (0x289, 0x289, 1, 0x244), (0x28A, 0x28B, 1, 0x1B1),
      (0x28C, 0x28C, 1, 0x245), (0x292, 0x292, 1, 0x1B7), (0x29D, 0x29D, 1, 0xA7B2),
      (0x29E, 0x29E, 1, 0xA7B0), (0x345, 0x345, 1, 0x399), (0x371, 0x373, 2, 0x370),
      (0x377, 0x377, 1, 0x376), (0x37B, 0x37D, 1, 0x3FD), (0x3AC, 0x3AC, 1, 0x386),
      (0x3AD, 0x3AF, 1, 0x388), (0x3B1, 0x3C1, 1, 0x391), (0x3C2, 0x3C2, 1, 0x3A3),
      (0x3C3, 0x3CB, 1, 0x3A3), (0x3CC, 0x3CC, 1, 0x38C), (0x3CD, 0x3CE, 1, 0x38E),
      (0x3D0, 0x3D0, 1, 0x392), (0x3D1, 0x3D1, 1, 0x398), (0x3D5, 0x3D5, 1, 0x3A6),
      (0x3D6, 0x3D6, 1, 0x3A0), (0x3D7, 0x3D7, 1, 0x3CF), (0x3D9, 0x3EF, 2, 0x3D8),
      (0x3F0, 0x3F0, 1, 0x39A), (0x3F1, 0x3F1, 1, 0x3A1), (0x3F2, 0x3F2, 1, 0x3F9),
      (0x3F3, 0x3F3, 1, 0x37F), (0x3F5, 0x3F5, 1, 0x395), (0x3F8, 0x3F8, 1, 0x3F7),
      (0x3FB, 0x3FB, 1, 0x3FA), (0x430, 0x44F, 1, 0x410), (0x450, 0x45F, 1, 0x400),
      (0x461, 0x481, 2, 0x460), (0x48B, 0x4BF, 2, 0x48A), (0x4C2, 0x4CE, 2, 0x4C1),
      (0x4CF, 0x4CF, 1, 0x4C0), (0x4D1, 0x52F, 2, 0x4D0), (0x561, 0x586, 1, 0x531),
      (0x10D0, 0x10FA, 1, 0x1C90), (0x10FD, 0x10FF, 1, 0x1CBD),
      (0x13F8, 0x13FD, 1, 0x13F0), (0x1C80, 0x1C80, 1, 0x412), (0x1C81, 0x1C81, 1, 0x414),
      (0x1C82, 0x1C82, 1, 0x41E), (0x1C83, 0x1C84, 1, 0x421), (0x1C85, 0x1C85, 1, 0x422),
      (0x1C86, 0x1C86, 1, 0x42A), (0x1C87, 0x1C87, 1, 0x462), (0x1C88, 0x1C88, 1, 0xA64A),
      (0x1D79, 0x1D79, 1, 0xA77D), (0x1D7D, 0x1D7D, 1, 0x2C63),
      (0x1D8E, 0x1D8E, 1, 0xA7C6), (0x1E01, 0x1E95, 2, 0x1E00),
      (0x1E9B, 0x1E9B, 1, 0x1E60), (0x1EA1, 0x1EFF, 2, 0x1EA0),
      (0x1F00, 0x1F07, 1, 0x1F08), (0x1F10, 0x1F15, 1, 0x1F18),
      (0x1F20, 0x1F27, 1, 0x1F28), (0x1F30, 0x1F37, 1, 0x1F38),
      (0x1F40, 0x1F45, 1, 0x1F48), (0x1F51, 0x1F57, 2, 0x1F59),
      (0x1F60, 0x1F67, 1, 0x1F68), (0x1F70, 0x1F71, 1, 0x1FBA),
      (0x1F72, 0x1F75, 1, 0x1FC8), (0x1F76, 0x1F77, 1, 0x1FDA),
      (0x1F78, 0x1F79, 1, 0x1FF8), (0x1F7A, 0x1F7B, 1, 0x1FEA),
      (0x1F7C, 0x1F7D, 1, 0x1FFA), (0x1FB0, 0x1FB1, 1, 0x1FB8), (0x1FBE, 0x1FBE, 1, 0x399),
      (0x1FD0, 0x1FD1, 1, 0x1FD8), (0x1FE0, 0x1FE1, 1, 0x1FE8),
      (0x1FE5, 0x1FE5, 1, 0x1FEC), (0x214E, 0x214E, 1, 0x2132),
      (0x2170, 0x217F, 1, 0x2160), (0x2184, 0x2184, 1, 0x2183),
      (0x24D0, 0x24E9, 1, 0x24B6), (0x2C30, 0x2C5F, 1, 0x2C00),
      (0x2C61, 0x2C61, 1, 0x2C60), (0x2C65, 0x2C65, 1, 0x23A), (0x2C66, 0x2C66, 1, 0x23E),
      (0x2C68, 0x2C6C, 2, 0x2C67), (0x2C73, 0x2C73, 1, 0x2C72),
      (0x2C76, 0x2C76, 1, 0x2C75), (0x2C81, 0x2CE3, 2, 0x2C80),
      (0x2CEC, 0x2CEE, 2, 0x2CEB), (0x2CF3, 0x2CF3, 1, 0x2CF2),
      (0x2D00, 0x2D25, 1, 0x10A0), (0x2D27, 0x2D27, 1, 0x10C7),
      (0x2D2D, 0x2D2D, 1, 0x10CD), (0xA641, 0xA66D, 2, 0xA640),
      (0xA681, 0xA69B, 2, 0xA680), (0xA723, 0xA72F, 2, 0xA722),
      (0xA733, 0xA76F, 2, 0xA732), (0xA77A, 0xA77C, 2, 0xA779),
      (0xA77F, 0xA787, 2, 0xA77E), (0xA78C, 0xA78C, 1, 0xA78B),
      (0xA791, 0xA793, 2, 0xA790), (0xA794, 0xA794, 1, 0xA7C4),
      (0xA797, 0xA7A9, 2, 0xA796), (0xA7B5, 0xA7C3, 2, 0xA7B4),
      (0xA7C8, 0xA7CA, 2, 0xA7C7), (0xA7D1, 0xA7D1, 1, 0xA7D0),
      (0xA7D7, 0xA7D9, 2, 0xA7D6), (0xA7F6, 0xA7F6, 1, 0xA7F5),
      (0xAB53, 0xAB53, 1, 0xA7B3), (0xAB70, 0xABBF, 1, 0x13A0),
      (0xFF41, 0xFF5A, 1, 0xFF21), (0x10428, 0x1044F, 1, 0x10400),
      (0x104D8, 0x104FB, 1, 0x104B0), (0x10597, 0x105BB, 2, 0x10570),
      (0x10598, 0x105A0, 2, 0x10571), (0x105A4, 0x105B0, 2, 0x1057D),
      (0x105B4, 0x105B8, 2, 0x1058D), (0x105BC, 0x105BC, 1, 0x10595),
      (0x10CC0, 0x10CF2, 1, 0x10C80), (0x118C0, 0x118DF, 1, 0x118A0),
      (0x16E60, 0x16E7F, 1, 0x16E40), (0x1E922, 0x1E943, 1, 0x1E900)]"

definition upperSpecial :: "(nat \<times> nat list) list" where
  "upperSpecial =
     [(0xDF, [0x53, 0x53]), (0x149, [0x2BC, 0x4E]), (0x1F0, [0x4A, 0x30C]),
      (0x390, [0x399, 0x308, 0x301]), (0x3B0, [0x3A5, 0x308, 0x301]),
      (0x587, [0x535, 0x552]), (0x1E96, [0x48, 0x331]), (0x1E97, [0x54, 0x308]),
      (0x1E98, [0x57, 0x30A]), (0x1E99, [0x59, 0x30A]), (0x1E9A, [0x41, 0x2BE]),
      (0x1F50, [0x3A5, 0x313]), (0x1F52, [0x3A5, 0x313, 0x300]),
      (0x1F54, [0x3A5, 0x313, 0x301]), (0x1F56, [0x3A5, 0x313, 0x342]),
      (0x1F80, [0x1F08, 0x399]), (0x1F81, [0x1F09, 0x399]), (0x1F82, [0x1F0A, 0x399]),
      (0x1F83, [0x1F0B, 0x399]), (0x1F84, [0x1F0C, 0x399]), (0x1F85, [0x1F0D, 0x399]),
      (0x1F86, [0x1F0E, 0x399]), (0x1F87, [0x1F0F, 0x399]), (0x1F88, [0x1F08, 0x399]),
      (0x1F89, [0x1F09, 0x399]), (0x1F8A, [0x1F0A, 0x399]), (0x1F8B, [0x1F0B, 0x399]),
      (0x1F8C, [0x1F0C, 0x399]), (0x1F8D, [0x1F0D, 0x399]), (0x1F8E, [0x1F0E, 0x399]),
      (0x1F8F, [0x1F0F, 0x399]), (0x1F90, [0x1F28, 0x399]), (0x1F91, [0x1F29, 0x399]),
      (0x1F92, [0x1F2A, 0x399]), (0x1F93, [0x1F2B, 0x399]), (0x1F94, [0x1F2C, 0x399]),
      (0x1F95, [0x1F2D, 0x399]), (0x1F96, [0x1F2E, 0x399]), (0x1F97, [0x1F2F, 0x399]),
      (0x1F98, [0x1F28, 0x399]), (0x1F99, [0x1F29, 0x399]), (0x1F9A, [0x1F2A, 0x399]),
      (0x1F9B, [0x1F2B, 0x399]), (0x1F9C, [0x1F2C, 0x399]), (0x1F9D, [0x1F2D, 0x399]),
      (0x1F9E, [0x1F2E, 0x399]), (0x1F9F, [0x1F2F, 0x399]), (0x1FA0, [0x1F68, 0x399]),
      (0x1FA1, [0x1F69, 0x399]), (0x1FA2, [0x1F6A, 0x399]), (0x1FA3, [0x1F6B, 0x399]),
      (0x1FA4, [0x1F6C, 0x399]), (0x1FA5, [0x1F6D, 0x399]), (0x1FA6, [0x1F6E, 0x399]),
      (0x1FA7, [0x1F6F, 0x399]), (0x1FA8, [0x1F68, 0x399]), (0x1FA9, [0x1F69, 0x399]),
      (0x1FAA, [0x1F6A, 0x399]), (0x1FAB, [0x1F6B, 0x399]), (0x1FAC, [0x1F6C, 0x399]),
      (0x1FAD, [0x1F6D, 0x399]), (0x1FAE, [0x1F6E, 0x399]), (0x1FAF, [0x1F6F, 0x399]),
      (0x1FB2, [0x1FBA, 0x399]), (0x1FB3, [0x391, 0x399]), (0x1FB4, [0x386, 0x399]),
      (0x1FB6, [0x391, 0x342]), (0x1FB7, [0x391, 0x342, 0x399]), (0x1FBC, [0x391, 0x399]),
      (0x1FC2, [0x1FCA, 0x399]), (0x1FC3, [0x397, 0x399]), (0x1FC4, [0x389, 0x399]),
      (0x1FC6, [0x397, 0x342]), (0x1FC7, [0x397, 0x342, 0x399]), (0x1FCC, [0x397, 0x399]),
      (0x1FD2, [0x399, 0x308, 0x300]), (0x1FD3, [0x399, 0x308, 0x301]),
      (0x1FD6, [0x399, 0x342]), (0x1FD7, [0x399, 0x308, 0x342]),
      (0x1FE2, [0x3A5, 0x308, 0x300]), (0x1FE3, [0x3A5, 0x308, 0x301]),
      (0x1FE4, [0x3A1, 0x313]), (0x1FE6, [0x3A5, 0x342]), (0x1FE7, [0x3A5, 0x308, 0x342]),
      (0x1FF2, [0x1FFA, 0x399]), (0x1FF3, [0x3A9, 0x399]), (0x1FF4, [0x38F, 0x399]),
      (0x1FF6, [0x3A9, 0x342]), (0x1FF7, [0x3A9, 0x342, 0x399]), (0x1FFC, [0x3A9, 0x399]),
      (0xFB00, [0x46, 0x46]), (0xFB01, [0x46, 0x49]), (0xFB02, [0x46, 0x4C]),
      (0xFB03, [0x46, 0x46, 0x49]), (0xFB04, [0x46, 0x46, 0x4C]), (0xFB05, [0x53, 0x54]),
      (0xFB06, [0x53, 0x54]), (0xFB13, [0x544, 0x546]), (0xFB14, [0x544, 0x535]),
      (0xFB15, [0x544, 0x53B]), (0xFB16, [0x54E, 0x546]), (0xFB17, [0x544, 0x53D])]"

definition inRange :: "nat \<Rightarrow> nat \<times> nat \<times> nat \<times> nat \<Rightarrow> bool" where
  "inRange cp r =
     (case r of (lo, hi, stride, img) \<Rightarrow>
        lo \<le> cp \<and> cp \<le> hi \<and> (cp - lo) mod stride = 0)"

definition upperCodePoint :: "nat \<Rightarrow> nat list" where
  "upperCodePoint cp =
     (case find (inRange cp) upperRanges of
        Some (lo, hi, stride, img) \<Rightarrow> [img + (cp - lo)]
      | None \<Rightarrow> (case map_of upperSpecial cp of Some us \<Rightarrow> us | None \<Rightarrow> [cp]))"

definition toUpperCase :: "jsstring \<Rightarrow> jsstring" where
  "toUpperCase s = concat (map codeUnits (concat (map upperCodePoint (codePoints s))))"

text \<open>
  \<^verbatim>\<open>rawRules.split('\n')\<close>: the pieces between the LF code units; an input with \<open>n\<close> LFs
  has \<open>n + 1\<close> pieces, some of them possibly empty.
\<close>

fun split_nl :: "jsstring \<Rightarrow> jsstring list" where
  "split_nl [] = [[]]"
| "split_nl (c # cs) =
     (if c = LF then [] # split_nl cs
      else (case split_nl cs of [] \<Rightarrow> [[c]] | l # ls \<Rightarrow> (c # l) # ls))"

section \<open>The patterns of the header detector\<close>

text \<open>
  Each matcher returns capture group 1 of the pattern when the whole line matches, and
  \<open>None\<close> when \<^verbatim>\<open>match\<close> returns null.

  \<^verbatim>\<open>/^\[([^\]]+)\]:?$/\<close>
\<close>

definition bracketMatch :: "jsstring \<Rightarrow> jsstring option" where
  "bracketMatch line =
     (case line of
        [] \<Rightarrow> None
      | c # r \<Rightarrow>
          if c = cu CHR ''[''
          then (let t = takeWhile (\<lambda>x. x \<noteq> cu CHR '']'') r;
                    rest = dropWhile (\<lambda>x. x \<noteq> cu CHR '']'') r
                in if t \<noteq> [] \<and> (rest = js '']'' \<or> rest = js '']:'') then Some t else None)
          else None)"

text \<open>
  \<^verbatim>\<open>/^#+\s+(.+)$/\<close>: all leading hashes, then white space, then a remainder without line
  terminators. The greedy \<^verbatim>\<open>\s+\<close> takes all the white space when something follows it;
  when the white space runs to the end of the line it gives back its last code unit to
  \<^verbatim>\<open>(.+)\<close>.
\<close>

definition mdMatch :: "jsstring \<Rightarrow> jsstring option" where
  "mdMatch line =
     (let hs = takeWhile (\<lambda>x. x = cu CHR ''#'') line;
          r = dropWhile (\<lambda>x. x = cu CHR ''#'') line;
          ws = takeWhile isWhiteSpace r;
          rest = dropWhile isWhiteSpace r
      in if hs = [] \<or> ws = [] then None
         else if rest \<noteq> [] then (if list_ex isLineTerminator rest then None else Some rest)
         else if 2 \<le> length ws \<and> \<not> isLineTerminator (last ws) then Some [last ws]
         else None)"

text \<open>\<^verbatim>\<open>/^\*\*([^*]+)\*\*:?$/\<close>\<close>

definition boldMatch :: "jsstring \<Rightarrow> jsstring option" where
  "boldMatch line =
     (case line of
        c1 # c2 # r \<Rightarrow>
          if c1 = cu CHR ''*'' \<and> c2 = cu CHR ''*''
          then (let t = takeWhile (\<lambda>x. x \<noteq> cu CHR ''*'') r;
                    rest = dropWhile (\<lambda>x. x \<noteq> cu CHR ''*'') r
                in if t \<noteq> [] \<and> (rest = js ''**'' \<or> rest = js ''**:'') then Some t else None)
          else None
      | _ \<Rightarrow> None)"

text \<open>\<^verbatim>\<open>/^([A-Za-z0-9 _/-]+):$/\<close>\<close>

definition isLabelUnit :: "jschar \<Rightarrow> bool" where
  "isLabelUnit c =
     ((cu CHR ''A'' \<le> c \<and> c \<le> cu CHR ''Z'') \<or> (cu CHR ''a'' \<le> c \<and> c \<le> cu CHR ''z'') \<or>
      (cu CHR ''0'' \<le> c \<and> c \<le> cu CHR ''9'') \<or>
      c = cu CHR '' '' \<or> c = cu CHR ''_'' \<or> c = cu CHR ''/'' \<or> c = cu CHR ''-'')"

definition colonMatch :: "jsstring \<Rightarrow> jsstring option" where
  "colonMatch line =
     (let t = takeWhile isLabelUnit line; rest = dropWhile isLabelUnit line
      in if t \<noteq> [] \<and> rest = js '':'' then Some t else None)"

text \<open>\<^verbatim>\<open>/^(?:\d+\.|[-*\<bullet>])\s/.test(s)\<close>, the bullet being U+2022.\<close>

definition isBulletUnit :: "jschar \<Rightarrow> bool" where
  "isBulletUnit c = (c = cu CHR ''-'' \<or> c = cu CHR ''*'' \<or> c = 0x2022)"

definition isListItem :: "jsstring \<Rightarrow> bool" where
  "isListItem s =
     (case s of
        [] \<Rightarrow> False
      | c # cs \<Rightarrow>
          if isBulletUnit c then (case cs of [] \<Rightarrow> False | w # _ \<Rightarrow> isWhiteSpace w)
          else (let ds = takeWhile isDigit s; r = dropWhile isDigit s
                in ds \<noteq> [] \<and>
                   (case r of
                      p # w # _ \<Rightarrow> p = cu CHR ''.'' \<and> isWhiteSpace w
                    | _ \<Rightarrow> False)))"

text \<open>\<^verbatim>\<open>/[.!?]$/.test(line)\<close>\<close>

definition isSentenceEnd :: "jsstring \<Rightarrow> bool" where
  "isSentenceEnd line =
     (line \<noteq> [] \<and>
      (last line = cu CHR ''.'' \<or> last line = cu CHR ''!'' \<or> last line = cu CHR ''?''))"

section \<open>The scopes object\<close>

text \<open>
  \<^verbatim>\<open>scopes\<close> is a plain object whose own properties are arrays of lines. It is modelled
  as the list of its own properties in insertion order. Reading a property that is not
  an own property falls through to \<^verbatim>\<open>Object.prototype\<close>: the read gives an inherited
  member there, and \<^verbatim>\<open>undefined\<close> otherwise.
\<close>

type_synonym scope_table = "(jsstring \<times> jsstring list) list"

datatype js_error = TypeError

datatype js_value = Undefined | Array "jsstring list" | Inherited

definition GLOBAL_KEY :: jsstring where
  "GLOBAL_KEY = js ''GLOBAL CONTEXT''"

definition object_prototype_keys :: "jsstring list" where
  "object_prototype_keys =
     [js ''constructor'', js ''hasOwnProperty'', js ''isPrototypeOf'',
      js ''propertyIsEnumerable'', js ''toLocaleString'', js ''toString'', js ''valueOf'',
      js ''__proto__'', js ''__defineGetter__'', js ''__defineSetter__'',
      js ''__lookupGetter__'', js ''__lookupSetter__'']"

definition get_prop :: "scope_table \<Rightarrow> jsstring \<Rightarrow> js_value" where
  "get_prop obj k =
     (case map_of obj k of
        Some v \<Rightarrow> Array v
      | None \<Rightarrow> if k \<in> set object_prototype_keys then Inherited else Undefined)"

text \<open>Only \<^verbatim>\<open>undefined\<close> is falsy among the values a read can give; an empty array is truthy.\<close>

fun truthy_value :: "js_value \<Rightarrow> bool" where
  "truthy_value Undefined = False"
| "truthy_value (Array v) = True"
| "truthy_value Inherited = True"

text \<open>\<^verbatim>\<open>scopes[k] = []\<close>: replaces the value of an own property, or adds the property last.\<close>

definition set_prop :: "scope_table \<Rightarrow> jsstring \<Rightarrow> jsstring list \<Rightarrow> scope_table" where
  "set_prop obj k v =
     (if k \<in> fst ` set obj then map (\<lambda>(k', v'). if k' = k then (k', v) else (k', v')) obj
      else obj @ [(k, v)])"

text \<open>
  \<^verbatim>\<open>scopes[k].push(line)\<close>: appends to the array of an own property; on any other value
  the call raises a TypeError.
\<close>

definition push_line :: "scope_table \<Rightarrow> jsstring \<Rightarrow> jsstring \<Rightarrow> js_error + scope_table" where
  "push_line obj k line =
     (case get_prop obj k of
        Array v \<Rightarrow> Inr (set_prop obj k (v @ [line]))
      | Undefined \<Rightarrow> Inl TypeError
      | Inherited \<Rightarrow> Inl TypeError)"

text \<open>
  \<^verbatim>\<open>Object.keys\<close>: the own keys that are array indices (canonical decimal numerals below
  \<open>2^32 - 1\<close>) in ascending numeric order, then the other keys in insertion order.
\<close>

definition digits_value :: "jsstring \<Rightarrow> nat" where
  "digits_value s = foldl (\<lambda>n c. 10 * n + (c - cu CHR ''0'')) 0 s"

definition isArrayIndex :: "jsstring \<Rightarrow> bool" where
  "isArrayIndex k =
     (k \<noteq> [] \<and> list_all isDigit k \<and> (k = js ''0'' \<or> hd k \<noteq> cu CHR ''0'') \<and>
      digits_value k < 4294967295)"

definition Object_keys :: "scope_table \<Rightarrow> jsstring list" where
  "Object_keys obj =
     sort_key digits_value (filter isArrayIndex (map fst obj)) @
     filter (\<lambda>k. \<not> isArrayIndex k) (map fst obj)"

section \<open>The parser\<close>

record ScopedKnowledge =
  scopes :: scope_table
  availableScopes :: "jsstring list"

text \<open>The two variables of the pass: the \<^verbatim>\<open>scopes\<close> object and \<^verbatim>\<open>currentScope\<close>.\<close>

record pass_state =
  table :: scope_table
  currentScope :: jsstring

text \<open>A header text is used only when it is truthy: neither null nor the empty string.\<close>

fun truthy :: "jsstring option \<Rightarrow> bool" where
  "truthy None = False"
| "truthy (Some h) = (h \<noteq> [])"

text \<open>Heuristic 1 of v3: the explicit syntax headers, first match first.\<close>

definition explicitHeader :: "jsstring \<Rightarrow> jsstring option" where
  "explicitHeader line =
     (case bracketMatch line of
        Some h \<Rightarrow> Some h
      | None \<Rightarrow>
          (case mdMatch line of
             Some h \<Rightarrow> Some h
           | None \<Rightarrow>
               (case boldMatch line of
                  Some h \<Rightarrow> Some h
                | None \<Rightarrow>
                    (case colonMatch line of
                       Some h \<Rightarrow> if length line < 50 then Some h else None
                     | None \<Rightarrow> None))))"

text \<open>The inner loop of heuristic 2: the index of the next line that is not blank.\<close>

function skipBlank :: "jsstring list \<Rightarrow> nat \<Rightarrow> nat" where
  "skipBlank lines nextIndex =
     (if nextIndex < length lines \<and> trim (lines ! nextIndex) = []
      then skipBlank lines (nextIndex + 1) else nextIndex)"
  by pat_completeness auto
termination
  by (relation "measure (\<lambda>(lines, nextIndex). length lines - nextIndex)") auto

declare skipBlank.simps [simp del]

definition nextLine :: "jsstring list \<Rightarrow> nat \<Rightarrow> jsstring" where
  "nextLine lines i =
     (let nextIndex = skipBlank lines (i + 1)
      in if nextIndex < length lines then trim (lines ! nextIndex) else [])"

text \<open>Heuristic 2 of v3, entered when heuristic 1 left no truthy header.\<close>

definition lookAhead :: "jsstring list \<Rightarrow> nat \<Rightarrow> jsstring \<Rightarrow> bool" where
  "lookAhead lines i line =
     (let isNextList = isListItem (nextLine lines i);
          isCurrentList = isListItem line;
          isShort = length line < 60;
          isSentence = isSentenceEnd line
      in isNextList \<and> \<not> isCurrentList \<and> isShort \<and> \<not> isSentence)"

definition detectHeader :: "jsstring list \<Rightarrow> nat \<Rightarrow> jsstring \<Rightarrow> jsstring option" where
  "detectHeader lines i line =
     (let detectedHeader = explicitHeader line
      in if truthy detectedHeader then detectedHeader
         else if lookAhead lines i line then Some line
         else detectedHeader)"

definition START_KNOWLEDGE :: jsstring where
  "START_KNOWLEDGE = js ''START KNOWLEDGE''"

definition END_KNOWLEDGE :: jsstring where
  "END_KNOWLEDGE = js ''END KNOWLEDGE''"

definition normalizeScope :: "jsstring \<Rightarrow> jsstring" where
  "normalizeScope detectedHeader = toUpperCase (trim detectedHeader)"

text \<open>The scoping step of one line that is not blank, the same in v2 and v3.\<close>

definition applyScoping :: "jsstring option \<Rightarrow> jsstring \<Rightarrow> pass_state \<Rightarrow> js_error + pass_state" where
  "applyScoping detectedHeader line st =
     (case detectedHeader of
        Some h \<Rightarrow>
          if h \<noteq> []
          then (let normalizedScope = normalizeScope h
                in if normalizedScope \<noteq> START_KNOWLEDGE \<and> normalizedScope \<noteq> END_KNOWLEDGE
                   then (if truthy_value (get_prop (table st) normalizedScope)
                         then Inr (st\<lparr>currentScope := normalizedScope\<rparr>)
                         else Inr \<lparr>table = set_prop (table st) normalizedScope [],
                                  currentScope = normalizedScope\<rparr>)
                   else Inr st)
          else map_sum id (\<lambda>t. st\<lparr>table := t\<rparr>) (push_line (table st) (currentScope st) line)
      | None \<Rightarrow>
          map_sum id (\<lambda>t. st\<lparr>table := t\<rparr>) (push_line (table st) (currentScope st) line))"

text \<open>The body of the \<^verbatim>\<open>for\<close> loop of v3 at index \<open>i\<close>, and the loop.\<close>

definition loopBody :: "jsstring list \<Rightarrow> nat \<Rightarrow> pass_state \<Rightarrow> js_error + pass_state" where
  "loopBody lines i st =
     (let line = trim (lines ! i)
      in if line = [] then Inr st
         else applyScoping (detectHeader lines i line) line st)"

function scanLines :: "jsstring list \<Rightarrow> nat \<Rightarrow> pass_state \<Rightarrow> js_error + pass_state" where
  "scanLines lines i st =
     (if i < length lines
      then (case loopBody lines i st of
              Inl e \<Rightarrow> Inl e
            | Inr st' \<Rightarrow> scanLines lines (i + 1) st')
      else Inr st)"
  by pat_completeness auto
termination
  by (relation "measure (\<lambda>(lines, i, st). length lines - i)") auto

declare scanLines.simps [simp del]

definition initialState :: pass_state where
  "initialState = \<lparr>table = [(GLOBAL_KEY, [])], currentScope = GLOBAL_KEY\<rparr>"

definition emptyResult :: ScopedKnowledge where
  "emptyResult = \<lparr>scopes = [(GLOBAL_KEY, [])], availableScopes = [GLOBAL_KEY]\<rparr>"

definition toResult :: "pass_state \<Rightarrow> ScopedKnowledge" where
  "toResult st = \<lparr>scopes = table st, availableScopes = Object_keys (table st)\<rparr>"

text \<open>
  \<^verbatim>\<open>useKnowledgeScoper\<close> of \<^verbatim>\<open>src/hooks/useKnowledgeScoper.ts\<close> (v3). \<open>None\<close> is
  \<^verbatim>\<open>undefined\<close>; \<^verbatim>\<open>!rawRules\<close> holds for it and for the empty string. \<^verbatim>\<open>useMemo\<close> returns
  what its callback returns.
\<close>

definition useKnowledgeScoper :: "jsstring option \<Rightarrow> js_error + ScopedKnowledge" where
  "useKnowledgeScoper rawRules =
     (case rawRules of
        None \<Rightarrow> Inr emptyResult
      | Some raw \<Rightarrow>
          if raw = [] then Inr emptyResult
          else map_sum id toResult (scanLines (split_nl raw) 0 initialState))"

subsection \<open>The v2 parser\<close>

text \<open>
  \<^verbatim>\<open>src/unnamed/part_000\<close> holds the earlier revision: the same four patterns in the same
  \<^verbatim>\<open>if\<close> chain, no look-ahead, and \<^verbatim>\<open>lines.forEach\<close> in place of the indexed loop.
\<close>

definition detectHeader_v2 :: "jsstring \<Rightarrow> jsstring option" where
  "detectHeader_v2 trimmed =
     (case bracketMatch trimmed of
        Some h \<Rightarrow> Some h
      | None \<Rightarrow>
          (case mdMatch trimmed of
             Some h \<Rightarrow> Some h
           | None \<Rightarrow>
               (case boldMatch trimmed of
                  Some h \<Rightarrow> Some h
                | None \<Rightarrow>
                    (case colonMatch trimmed of
                       Some h \<Rightarrow> if length trimmed < 50 then Some h else None
                     | None \<Rightarrow> None))))"

fun forEach_v2 :: "jsstring list \<Rightarrow> pass_state \<Rightarrow> js_error + pass_state" where
  "forEach_v2 [] st = Inr st"
| "forEach_v2 (line # rest) st =
     (let trimmed = trim line
      in if trimmed = [] then forEach_v2 rest st
         else (case applyScoping (detectHeader_v2 trimmed) trimmed st of
                 Inl e \<Rightarrow> Inl e
               | Inr st' \<Rightarrow> forEach_v2 rest st'))"

definition useKnowledgeScoper_v2 :: "jsstring option \<Rightarrow> js_error + ScopedKnowledge" where
  "useKnowledgeScoper_v2 rawRules =
     (case rawRules of
        None \<Rightarrow> Inr emptyResult
      | Some raw \<Rightarrow>
          if raw = [] then Inr emptyResult
          else map_sum id toResult (forEach_v2 (split_nl raw) initialState))"

section \<open>Notions used in the statements\<close>

text \<open>The own keys of the scopes object, in insertion order.\<close>

definition keys_of :: "scope_table \<Rightarrow> jsstring list" where
  "keys_of obj = map fst obj"

definition isLowerUnit :: "jschar \<Rightarrow> bool" where
  "isLowerUnit c = (cu CHR ''a'' \<le> c \<and> c \<le> cu CHR ''z'')"

text \<open>
  The invariant of the pass: the own keys are distinct, the current scope is one of them,
  the global key was inserted first, and no key is a sentinel.
\<close>

definition scope_inv :: "pass_state \<Rightarrow> bool" where
  "scope_inv st =
     (distinct (keys_of (table st)) \<and> currentScope st \<in> set (keys_of (table st)) \<and>
      keys_of (table st) \<noteq> [] \<and> hd (keys_of (table st)) = GLOBAL_KEY \<and>
      START_KNOWLEDGE \<notin> set (keys_of (table st)) \<and>
      END_KNOWLEDGE \<notin> set (keys_of (table st)))"

text \<open>The state of the v3 pass when the loop reaches index \<open>n\<close>.\<close>

fun stateAt :: "jsstring list \<Rightarrow> nat \<Rightarrow> js_error + pass_state" where
  "stateAt lines 0 = Inr initialState"
| "stateAt lines (Suc n) =
     (case stateAt lines n of
        Inl e \<Rightarrow> Inl e
      | Inr st \<Rightarrow> if n < length lines then loopBody lines n st else Inr st)"

text \<open>
  A well-formed result: the scope names of the table are distinct and include the global
  scope, and \<open>availableScopes\<close> lists exactly these names, each once.
\<close>

definition wellFormed :: "ScopedKnowledge \<Rightarrow> bool" where
  "wellFormed res =
     (distinct (keys_of (scopes res)) \<and> GLOBAL_KEY \<in> set (keys_of (scopes res)) \<and>
      distinct (availableScopes res) \<and>
      set (availableScopes res) = set (keys_of (scopes res)))"

text \<open>
  The first line after index \<open>i\<close> that is not blank, trimmed; the empty string when
  there is none.
\<close>

definition firstNonBlankAfter :: "jsstring list \<Rightarrow> nat \<Rightarrow> jsstring" where
  "firstNonBlankAfter lines i =
     (case filter (\<lambda>l. l \<noteq> []) (map trim (drop (Suc i) lines)) of [] \<Rightarrow> [] | l # _ \<Rightarrow> l)"

text \<open>
  The look-ahead rule decides line \<open>i\<close>: the line is not blank, rules 1 to 4 do not
  match it, and the four conditions of the look-ahead hold.
\<close>

definition lookAheadFires :: "jsstring list \<Rightarrow> nat \<Rightarrow> bool" where
  "lookAheadFires lines i =
     (let line = trim (lines ! i)
      in line \<noteq> [] \<and> explicitHeader line = None \<and> lookAhead lines i line)"

section \<open>Evaluation on concrete inputs\<close>

lemmas eval_defs =
  useKnowledgeScoper_def useKnowledgeScoper_v2_def js_def scanLines.simps loopBody_def
  trim_def isWhiteSpace_def isLineTerminator_def isDigit_def
  detectHeader_def detectHeader_v2_def explicitHeader_def bracketMatch_def mdMatch_def
  boldMatch_def colonMatch_def isLabelUnit_def lookAhead_def nextLine_def skipBlank.simps
  isListItem_def isBulletUnit_def isSentenceEnd_def applyScoping_def normalizeScope_def
  toUpperCase_def upperCodePoint_def inRange_def upperRanges_def upperSpecial_def codeUnits_def
  isHighSurrogate_def isLowSurrogate_def START_KNOWLEDGE_def END_KNOWLEDGE_def get_prop_def
  set_prop_def push_line_def object_prototype_keys_def initialState_def toResult_def
  Object_keys_def isArrayIndex_def digits_value_def GLOBAL_KEY_def emptyResult_def Let_def

section \<open>Scenario A\<close>

text \<open>
  C8. The input of three kinds of line: a content line before any header goes to the
  global scope, the bracketed header opens the scope RULES, and the two list items that
  follow are appended to it as they stand; the scope names are listed global first.
\<close>

theorem scenario_A:
  "useKnowledgeScoper
     (Some (js ''Intro line'' @ LF # js ''[Rules]'' @ LF # js ''- do X'' @ LF # js ''- do Y'')) =
   Inr \<lparr>scopes = [(GLOBAL_KEY, [js ''Intro line'']),
                  (js ''RULES'', [js ''- do X'', js ''- do Y''])],
        availableScopes = [GLOBAL_KEY, js ''RULES'']\<rparr>"
  by (simp add: eval_defs)

section \<open>Absent and empty input\<close>

text \<open>
  C4. The parser returns the same result for the absent input and for the empty string:
  the table with the global scope alone, mapped to no content, and the global scope as
  the only available scope.
\<close>

theorem absent_and_empty_input:
  "useKnowledgeScoper None = useKnowledgeScoper (Some []) \<and>
   useKnowledgeScoper None =
     Inr \<lparr>scopes = [(GLOBAL_KEY, [])], availableScopes = [GLOBAL_KEY]\<rparr>"
  by (simp add: useKnowledgeScoper_def emptyResult_def)

section \<open>The pass never fails\<close>

text \<open>No upper-case mapping produces one of the letters \<open>a..z\<close>.\<close>

lemma upperRanges_images:
  "list_all (\<lambda>(lo, hi, stride, img). img + (hi - lo) < 97 \<or> 122 < img) upperRanges"
  by (simp add: upperRanges_def)

lemma upperSpecial_images:
  "list_all (\<lambda>(cp, us). list_all (\<lambda>u. \<not> isLowerUnit u \<and> u < 0x10000) us) upperSpecial"
  by (simp add: upperSpecial_def isLowerUnit_def)

lemma lower_inRange: "isLowerUnit cp \<Longrightarrow> inRange cp (0x61, 0x7A, 1, 0x41)"
  by (simp add: inRange_def isLowerUnit_def)

lemma lower_range_listed: "(0x61, 0x7A, 1, 0x41) \<in> set upperRanges"
  by (simp add: upperRanges_def)

lemma upperCodePoint_no_lower: "list_all (\<lambda>u. \<not> isLowerUnit u) (upperCodePoint cp)"
proof (cases "find (inRange cp) upperRanges")
  case (Some r)
  obtain lo hi stride img where r: "r = (lo, hi, stride, img)" by (cases r) auto
  from Some have "r \<in> set upperRanges" "inRange cp r"
    by (auto simp: find_Some_iff)
  with r upperRanges_images have "img + (hi - lo) < 97 \<or> 122 < img" "lo \<le> cp" "cp \<le> hi"
    by (auto simp: list_all_iff inRange_def)
  then have "\<not> isLowerUnit (img + (cp - lo))" by (auto simp: isLowerUnit_def)
  with Some r show ?thesis by (simp add: upperCodePoint_def)
next
  case None
  then have "\<not> inRange cp (0x61, 0x7A, 1, 0x41)"
    using lower_range_listed by (auto simp: find_None_iff)
  then have nl: "\<not> isLowerUnit cp" using lower_inRange by blast
  show ?thesis
  proof (cases "map_of upperSpecial cp")
    case none: None
    with None nl show ?thesis by (simp add: upperCodePoint_def)
  next
    case (Some us)
    then have "(cp, us) \<in> set upperSpecial" by (rule map_of_SomeD)
    with upperSpecial_images have "list_all (\<lambda>u. \<not> isLowerUnit u) us"
      by (auto simp: list_all_iff)
    with None Some show ?thesis by (simp add: upperCodePoint_def)
  qed
qed

lemma codeUnits_no_lower: "\<not> isLowerUnit cp \<Longrightarrow> list_all (\<lambda>u. \<not> isLowerUnit u) (codeUnits cp)"
  by (simp add: codeUnits_def isLowerUnit_def)

lemma toUpperCase_no_lower: "list_all (\<lambda>c. \<not> isLowerUnit c) (toUpperCase s)"
  using upperCodePoint_no_lower codeUnits_no_lower
  by (auto simp: toUpperCase_def list_all_iff)

text \<open>The mapping on letters outside ASCII, and on a surrogate pair.\<close>

lemma toUpperCase_examples:
  "toUpperCase (js ''Caf'' @ [0xE9]) = js ''CAF'' @ [0xC9] \<and>
   toUpperCase [0xDF] = js ''SS'' \<and>
   toUpperCase (0x17F # js ''tart knowledge'') = js ''START KNOWLEDGE'' \<and>
   toUpperCase [0xD801, 0xDC28] = [0xD801, 0xDC00] \<and>
   toUpperCase (js ''GLOBAL context 1.'') = js ''GLOBAL CONTEXT 1.''"
  by (simp add: toUpperCase_def upperCodePoint_def inRange_def upperRanges_def upperSpecial_def
      codeUnits_def isHighSurrogate_def isLowSurrogate_def js_def)

lemma prototype_key_has_lower: "k \<in> set object_prototype_keys \<Longrightarrow> list_ex isLowerUnit k"
  by (auto simp: object_prototype_keys_def js_def isLowerUnit_def)

lemma normalizeScope_not_inherited: "normalizeScope h \<notin> set object_prototype_keys"
proof
  assume "normalizeScope h \<in> set object_prototype_keys"
  then have "list_ex isLowerUnit (normalizeScope h)" by (rule prototype_key_has_lower)
  moreover have "list_all (\<lambda>c. \<not> isLowerUnit c) (normalizeScope h)"
    unfolding normalizeScope_def by (rule toUpperCase_no_lower)
  ultimately show False by (auto simp: list_ex_iff list_all_iff)
qed

lemma map_of_own: "k \<in> set (keys_of obj) \<Longrightarrow> \<exists>v. map_of obj k = Some v"
  using map_of_eq_None_iff[of obj k] by (cases "map_of obj k") (auto simp: keys_of_def)

lemma map_of_not_own: "k \<notin> set (keys_of obj) \<Longrightarrow> map_of obj k = None"
  by (simp add: map_of_eq_None_iff keys_of_def)

lemma get_prop_own: "k \<in> set (keys_of obj) \<Longrightarrow> \<exists>v. get_prop obj k = Array v"
  using map_of_own[of k obj] by (auto simp: get_prop_def)

lemma truthy_get_prop:
  "truthy_value (get_prop obj k) \<longleftrightarrow>
     k \<in> set (keys_of obj) \<or> k \<in> set object_prototype_keys"
proof (cases "k \<in> set (keys_of obj)")
  case True
  then show ?thesis using get_prop_own[of k obj] by auto
next
  case False
  then show ?thesis by (simp add: get_prop_def map_of_not_own)
qed

lemma keys_of_set_prop_own:
  "k \<in> set (keys_of obj) \<Longrightarrow> keys_of (set_prop obj k v) = keys_of obj"
  by (auto simp: set_prop_def keys_of_def)

lemma keys_of_set_prop_new:
  "k \<notin> set (keys_of obj) \<Longrightarrow> keys_of (set_prop obj k v) = keys_of obj @ [k]"
  by (auto simp: set_prop_def keys_of_def)

lemma push_line_own:
  assumes "k \<in> set (keys_of obj)"
  shows "\<exists>t. push_line obj k line = Inr t \<and> keys_of t = keys_of obj"
proof -
  from get_prop_own[OF assms] obtain v where "get_prop obj k = Array v" ..
  then show ?thesis by (simp add: push_line_def keys_of_set_prop_own[OF assms])
qed

lemma initialState_inv: "scope_inv initialState"
  by (simp add: scope_inv_def keys_of_def initialState_def GLOBAL_KEY_def
      START_KNOWLEDGE_def END_KNOWLEDGE_def js_def)

lemma applyScoping_inv:
  assumes "scope_inv st"
  shows "\<exists>st'. applyScoping h line st = Inr st' \<and> scope_inv st'"
proof -
  have content:
    "\<exists>st'. map_sum id (\<lambda>t. st\<lparr>table := t\<rparr>)
             (push_line (table st) (currentScope st) line) = Inr st' \<and> scope_inv st'"
  proof -
    from assms have "currentScope st \<in> set (keys_of (table st))"
      by (simp add: scope_inv_def)
    from push_line_own[OF this, of line] obtain t where
      "push_line (table st) (currentScope st) line = Inr t"
      "keys_of t = keys_of (table st)" by blast
    then show ?thesis using assms by (simp add: scope_inv_def)
  qed
  show ?thesis
  proof (cases "truthy h")
    case False
    then show ?thesis using content by (cases h) (auto simp: applyScoping_def)
  next
    case True
    then obtain t where h: "h = Some t" "t \<noteq> []" by (cases h) auto
    let ?k = "normalizeScope t"
    show ?thesis
    proof (cases "?k \<noteq> START_KNOWLEDGE \<and> ?k \<noteq> END_KNOWLEDGE")
      case False
      then show ?thesis using h assms by (auto simp: applyScoping_def)
    next
      case notS: True
      show ?thesis
      proof (cases "?k \<in> set (keys_of (table st))")
        case True
        then show ?thesis using h assms notS
          by (simp add: applyScoping_def truthy_get_prop scope_inv_def Let_def)
      next
        case False
        then have "\<not> truthy_value (get_prop (table st) ?k)"
          by (simp add: truthy_get_prop normalizeScope_not_inherited)
        then show ?thesis using h assms notS False
          by (auto simp: applyScoping_def scope_inv_def keys_of_set_prop_new Let_def)
      qed
    qed
  qed
qed

lemma loopBody_inv:
  "scope_inv st \<Longrightarrow> \<exists>st'. loopBody lines i st = Inr st' \<and> scope_inv st'"
  using applyScoping_inv by (auto simp: loopBody_def Let_def)

lemma scanLines_inv:
  "scope_inv st \<Longrightarrow> \<exists>st'. scanLines lines i st = Inr st' \<and> scope_inv st'"
proof (induction lines i st rule: scanLines.induct)
  case (1 lines i st)
  show ?case
  proof (cases "i < length lines")
    case False
    then show ?thesis using "1.prems" by (simp add: scanLines.simps)
  next
    case True
    from loopBody_inv[OF "1.prems"] obtain st1 where
      s1: "loopBody lines i st = Inr st1" "scope_inv st1" by blast
    from "1.IH"[OF True s1(1) s1(2)] show ?thesis
      using True s1 by (subst scanLines.simps) simp
  qed
qed

lemma stateAt_inv: "\<exists>st. stateAt lines n = Inr st \<and> scope_inv st"
proof (induction n)
  case 0
  show ?case by (simp add: initialState_inv)
next
  case (Suc n)
  then obtain st where st: "stateAt lines n = Inr st" "scope_inv st" by blast
  from loopBody_inv[OF st(2)] obtain st' where
    "loopBody lines n st = Inr st'" "scope_inv st'" by blast
  with st show ?case by simp
qed

text \<open>The states of \<open>stateAt\<close> are the ones the loop goes through.\<close>

lemma scanLines_stateAt:
  "n \<le> length lines \<Longrightarrow>
   scanLines lines 0 initialState =
     (case stateAt lines n of Inl e \<Rightarrow> Inl e | Inr st \<Rightarrow> scanLines lines n st)"
proof (induction n)
  case 0
  show ?case by simp
next
  case (Suc n)
  then have lt: "n < length lines" by simp
  from stateAt_inv obtain st where st: "stateAt lines n = Inr st" by blast
  have "scanLines lines 0 initialState = scanLines lines n st"
    using Suc st by simp
  also have "\<dots> = (case loopBody lines n st of Inl e \<Rightarrow> Inl e
                    | Inr st' \<Rightarrow> scanLines lines (n + 1) st')"
    using lt by (subst scanLines.simps) simp
  finally show ?case using st lt by (simp split: sum.splits)
qed

lemma set_Object_keys: "set (Object_keys obj) = set (keys_of obj)"
  by (auto simp: Object_keys_def keys_of_def)

lemma distinct_Object_keys: "distinct (keys_of obj) \<Longrightarrow> distinct (Object_keys obj)"
  by (auto simp: Object_keys_def keys_of_def distinct_map_filter)

lemma scope_inv_wellFormed: "scope_inv st \<Longrightarrow> wellFormed (toResult st)"
  by (auto simp: wellFormed_def toResult_def scope_inv_def set_Object_keys
      distinct_Object_keys dest: hd_in_set)

lemma emptyResult_wellFormed: "wellFormed emptyResult"
  by (simp add: wellFormed_def emptyResult_def keys_of_def)

lemma useKnowledgeScoper_cases:
  "useKnowledgeScoper rawRules = Inr emptyResult \<or>
   (\<exists>st. useKnowledgeScoper rawRules = Inr (toResult st) \<and> scope_inv st)"
proof (cases "rawRules = None \<or> rawRules = Some []")
  case True
  then show ?thesis by (auto simp: useKnowledgeScoper_def)
next
  case False
  then obtain raw where raw: "rawRules = Some raw" "raw \<noteq> []" by (cases rawRules) auto
  from scanLines_inv[OF initialState_inv, of "split_nl raw" 0] obtain st where
    "scanLines (split_nl raw) 0 initialState = Inr st" "scope_inv st" by blast
  with raw show ?thesis by (auto simp: useKnowledgeScoper_def)
qed

text \<open>
  C3. The parser is total: for the absent input and for every string it returns a
  well-formed result, never an error. At every index the loop reaches, the state is
  defined, the current scope is an own key of the scopes object, and so appending a
  content line finds its array.
\<close>

theorem parser_total:
  "(\<exists>res. useKnowledgeScoper rawRules = Inr res \<and> wellFormed res) \<and>
   (\<exists>st. stateAt lines n = Inr st \<and> currentScope st \<in> set (keys_of (table st)) \<and>
         (\<exists>t. push_line (table st) (currentScope st) line = Inr t))"
proof
  show "\<exists>res. useKnowledgeScoper rawRules = Inr res \<and> wellFormed res"
    using useKnowledgeScoper_cases[of rawRules] emptyResult_wellFormed scope_inv_wellFormed
    by auto
next
  from stateAt_inv obtain st where st: "stateAt lines n = Inr st" "scope_inv st" by blast
  then have own: "currentScope st \<in> set (keys_of (table st))" by (simp add: scope_inv_def)
  from push_line_own[OF own, of line] st(1) own
  show "\<exists>st. stateAt lines n = Inr st \<and> currentScope st \<in> set (keys_of (table st)) \<and>
         (\<exists>t. push_line (table st) (currentScope st) line = Inr t)"
    by blast
qed

section \<open>Sentinels\<close>

text \<open>
  C1 fails on the input of scenario D. No rule detects the bare sentinel lines as headers (the line
  after each is not a list item), so they reach the content branch: both are recorded
  under the global scope, next to the rule between them.
\<close>

theorem scenario_D_counterexample:
  "useKnowledgeScoper
     (Some (js ''START KNOWLEDGE'' @ LF # js ''Rule A'' @ LF # js ''END KNOWLEDGE'')) =
   Inr \<lparr>scopes = [(GLOBAL_KEY, [js ''START KNOWLEDGE'', js ''Rule A'', js ''END KNOWLEDGE''])],
        availableScopes = [GLOBAL_KEY]\<rparr>"
  by (simp add: eval_defs)

lemma result_no_sentinel_key:
  "\<exists>res. useKnowledgeScoper rawRules = Inr res \<and>
     START_KNOWLEDGE \<notin> set (keys_of (scopes res)) \<and>
     END_KNOWLEDGE \<notin> set (keys_of (scopes res)) \<and>
     START_KNOWLEDGE \<notin> set (availableScopes res) \<and>
     END_KNOWLEDGE \<notin> set (availableScopes res)"
proof -
  have e: "START_KNOWLEDGE \<noteq> GLOBAL_KEY" "END_KNOWLEDGE \<noteq> GLOBAL_KEY"
    by (simp_all add: START_KNOWLEDGE_def END_KNOWLEDGE_def GLOBAL_KEY_def js_def)
  from useKnowledgeScoper_cases[of rawRules] show ?thesis
  proof
    assume "useKnowledgeScoper rawRules = Inr emptyResult"
    then show ?thesis using e by (simp add: emptyResult_def keys_of_def)
  next
    assume "\<exists>st. useKnowledgeScoper rawRules = Inr (toResult st) \<and> scope_inv st"
    then obtain st where "useKnowledgeScoper rawRules = Inr (toResult st)" "scope_inv st"
      by blast
    then show ?thesis by (simp add: toResult_def scope_inv_def set_Object_keys)
  qed
qed

lemma sentinel_header_dropped:
  assumes "detectHeader lines i (trim (lines ! i)) = Some h"
    and "normalizeScope h = START_KNOWLEDGE \<or> normalizeScope h = END_KNOWLEDGE"
  shows "loopBody lines i st = Inr st"
proof -
  have "normalizeScope [] = []" by (simp add: normalizeScope_def trim_def toUpperCase_def)
  with assms(2) have "h \<noteq> []"
    by (auto simp: START_KNOWLEDGE_def END_KNOWLEDGE_def js_def)
  with assms show ?thesis by (auto simp: loopBody_def applyScoping_def Let_def)
qed

lemma undetected_line_is_content:
  assumes "trim (lines ! i) \<noteq> []"
    and "detectHeader lines i (trim (lines ! i)) = None"
    and "map_of (table st) (currentScope st) = Some v"
  shows "loopBody lines i st =
         Inr (st\<lparr>table := set_prop (table st) (currentScope st) (v @ [trim (lines ! i)])\<rparr>)"
  using assms by (simp add: loopBody_def applyScoping_def push_line_def get_prop_def)

text \<open>
  C1, as the code has it. The sentinel texts are never a key of the scopes table nor a
  name in \<open>availableScopes\<close>. A line whose detected header normalizes to a sentinel
  leaves the table and the current scope as they were: it is dropped. A line in which no
  rule detects a header is appended to the current scope whatever its text, a bare
  sentinel line included; the current scope stays.
\<close>

theorem sentinel_handling:
  "(\<exists>res. useKnowledgeScoper rawRules = Inr res \<and>
      START_KNOWLEDGE \<notin> set (keys_of (scopes res)) \<and>
      END_KNOWLEDGE \<notin> set (keys_of (scopes res)) \<and>
      START_KNOWLEDGE \<notin> set (availableScopes res) \<and>
      END_KNOWLEDGE \<notin> set (availableScopes res)) \<and>
   (detectHeader lines i (trim (lines ! i)) = Some h \<and>
    (normalizeScope h = START_KNOWLEDGE \<or> normalizeScope h = END_KNOWLEDGE) \<longrightarrow>
      loopBody lines i st = Inr st) \<and>
   (trim (lines' ! j) \<noteq> [] \<and> detectHeader lines' j (trim (lines' ! j)) = None \<and>
    map_of (table st') (currentScope st') = Some v \<longrightarrow>
      loopBody lines' j st' =
        Inr (st'\<lparr>table := set_prop (table st') (currentScope st') (v @ [trim (lines' ! j)])\<rparr>))"
  using result_no_sentinel_key sentinel_header_dropped undetected_line_is_content by blast

text \<open>
  The witness takes a header that is a sentinel only through the upper-case mapping of a
  letter outside ASCII: \<open>U+017F\<close>, the long s, maps to \<open>S\<close>.
\<close>

theorem sentinel_handling_witness:
  "detectHeader [js ''['' @ 0x17F # js ''tart knowledge]:'', js ''Rule A''] 0
     (trim ([js ''['' @ 0x17F # js ''tart knowledge]:'', js ''Rule A''] ! 0)) =
     Some (0x17F # js ''tart knowledge'') \<and>
   normalizeScope (0x17F # js ''tart knowledge'') = START_KNOWLEDGE \<and>
   loopBody [js ''['' @ 0x17F # js ''tart knowledge]:'', js ''Rule A''] 0 initialState =
     Inr initialState \<and>
   trim ([js ''START KNOWLEDGE'', js ''Rule A'', js ''END KNOWLEDGE''] ! 0) \<noteq> [] \<and>
   detectHeader [js ''START KNOWLEDGE'', js ''Rule A'', js ''END KNOWLEDGE''] 0
     (trim ([js ''START KNOWLEDGE'', js ''Rule A'', js ''END KNOWLEDGE''] ! 0)) = None \<and>
   map_of (table initialState) (currentScope initialState) = Some [] \<and>
   loopBody [js ''START KNOWLEDGE'', js ''Rule A'', js ''END KNOWLEDGE''] 0 initialState =
     Inr \<lparr>table = [(GLOBAL_KEY, [js ''START KNOWLEDGE''])], currentScope = GLOBAL_KEY\<rparr>"
  using sentinel_handling[where lines = "[js ''['' @ 0x17F # js ''tart knowledge]:'', js ''Rule A'']"
      and i = 0 and h = "0x17F # js ''tart knowledge''" and st = initialState
      and lines' = "[js ''START KNOWLEDGE'', js ''Rule A'', js ''END KNOWLEDGE'']" and j = 0
      and st' = initialState and v = "[]"]
  by (simp add: eval_defs)

section \<open>The order of the available scopes\<close>

text \<open>
  C2 at the input \<^verbatim>\<open>"[1]\n- do X"\<close>. The header opens the scope \<open>1\<close>, an array index;
  \<^verbatim>\<open>Object.keys\<close> lists array indices before the other keys, so the scope \<open>1\<close> comes
  before the global scope in \<open>availableScopes\<close>, although the global scope was inserted
  first.
\<close>

theorem numeric_header_precedes_global:
  "useKnowledgeScoper (Some (js ''[1]'' @ LF # js ''- do X'')) =
   Inr \<lparr>scopes = [(GLOBAL_KEY, []), (js ''1'', [js ''- do X''])],
        availableScopes = [js ''1'', GLOBAL_KEY]\<rparr>"
  by (simp add: eval_defs)


text \<open>
  What holds for every input: the global scope is present, it is the first key of the table
  in insertion order, and when no scope name is an array index the available scopes are
  the keys in insertion order.
\<close>

lemma Object_keys_insertion_order:
  "list_all (\<lambda>k. \<not> isArrayIndex k) (keys_of obj) \<Longrightarrow> Object_keys obj = keys_of obj"
proof -
  assume a: "list_all (\<lambda>k. \<not> isArrayIndex k) (keys_of obj)"
  then have "filter isArrayIndex (map fst obj) = []"
    by (auto simp: keys_of_def list_all_iff filter_empty_conv)
  moreover from a have "filter (\<lambda>k. \<not> isArrayIndex k) (map fst obj) = map fst obj"
    by (auto simp: keys_of_def list_all_iff filter_id_conv)
  ultimately show ?thesis by (simp add: Object_keys_def keys_of_def)
qed

lemma global_scope_present:
  "\<exists>res. useKnowledgeScoper rawRules = Inr res \<and>
     GLOBAL_KEY \<in> set (keys_of (scopes res)) \<and> GLOBAL_KEY \<in> set (availableScopes res) \<and>
     hd (keys_of (scopes res)) = GLOBAL_KEY \<and>
     (if list_all (\<lambda>k. \<not> isArrayIndex k) (keys_of (scopes res))
      then availableScopes res = keys_of (scopes res) else True)"
proof -
  from useKnowledgeScoper_cases[of rawRules] show ?thesis
  proof
    assume "useKnowledgeScoper rawRules = Inr emptyResult"
    then show ?thesis by (simp add: emptyResult_def keys_of_def)
  next
    assume "\<exists>st. useKnowledgeScoper rawRules = Inr (toResult st) \<and> scope_inv st"
    then obtain st where st: "useKnowledgeScoper rawRules = Inr (toResult st)" "scope_inv st"
      by blast
    from st(2) have "GLOBAL_KEY \<in> set (keys_of (table st))" "hd (keys_of (table st)) = GLOBAL_KEY"
      by (auto simp: scope_inv_def dest: hd_in_set)
    with st(1) show ?thesis
      by (simp add: toResult_def set_Object_keys Object_keys_insertion_order)
  qed
qed

section \<open>The header detector\<close>

lemma bracketMatch_nonempty: "bracketMatch line = Some h \<Longrightarrow> h \<noteq> []"
  by (auto simp: bracketMatch_def Let_def split: list.splits if_splits)

lemma mdMatch_nonempty: "mdMatch line = Some h \<Longrightarrow> h \<noteq> []"
  by (auto simp: mdMatch_def Let_def split: if_splits)

lemma boldMatch_nonempty: "boldMatch line = Some h \<Longrightarrow> h \<noteq> []"
  by (auto simp: boldMatch_def Let_def split: list.splits if_splits)

lemma colonMatch_nonempty: "colonMatch line = Some h \<Longrightarrow> h \<noteq> []"
  by (auto simp: colonMatch_def Let_def split: if_splits)

lemma explicitHeader_nonempty: "explicitHeader line = Some h \<Longrightarrow> h \<noteq> []"
  by (auto simp: explicitHeader_def split: option.splits if_splits
      dest: bracketMatch_nonempty mdMatch_nonempty boldMatch_nonempty colonMatch_nonempty)

lemma truthy_explicitHeader: "truthy (explicitHeader line) \<longleftrightarrow> explicitHeader line \<noteq> None"
  by (cases "explicitHeader line") (auto dest: explicitHeader_nonempty)

lemma detectHeader_chain:
  "detectHeader lines i line =
     (if bracketMatch line \<noteq> None then bracketMatch line
      else if mdMatch line \<noteq> None then mdMatch line
      else if boldMatch line \<noteq> None then boldMatch line
      else if colonMatch line \<noteq> None \<and> length line < 50 then colonMatch line
      else if lookAhead lines i line then Some line
      else None)"
proof (cases "explicitHeader line")
  case None
  then have "detectHeader lines i line = (if lookAhead lines i line then Some line else None)"
    by (simp add: detectHeader_def)
  with None show ?thesis
    by (simp add: explicitHeader_def split: option.splits if_splits)
next
  case (Some h)
  then have "truthy (explicitHeader line)" by (simp add: explicitHeader_nonempty)
  then have "detectHeader lines i line = Some h" using Some by (simp add: detectHeader_def)
  with Some show ?thesis
    by (simp add: explicitHeader_def split: option.splits if_splits)
qed

lemma takeWhile_upto: "x \<notin> set t \<Longrightarrow> takeWhile (\<lambda>y. y \<noteq> x) (t @ x # rest) = t"
  by (induction t) auto

lemma dropWhile_upto: "x \<notin> set t \<Longrightarrow> dropWhile (\<lambda>y. y \<noteq> x) (t @ x # rest) = x # rest"
  by (induction t) auto

lemma bracketMatch_bracketed:
  assumes "t \<noteq> []" "cu CHR '']'' \<notin> set t" "c = js '']'' \<or> c = js '']:''"
  shows "bracketMatch (js ''['' @ t @ c) = Some t"
proof -
  from assms(3) obtain rest where c: "c = cu CHR '']'' # rest" by (auto simp: js_def)
  have "takeWhile (\<lambda>x. x \<noteq> cu CHR '']'') (t @ c) = t"
    using assms(2) unfolding c by (rule takeWhile_upto)
  moreover have "dropWhile (\<lambda>x. x \<noteq> cu CHR '']'') (t @ c) = c"
    using assms(2) unfolding c by (rule dropWhile_upto)
  ultimately show ?thesis using assms(1,3) by (auto simp: bracketMatch_def js_def)
qed

lemma colonMatch_bracketed: "colonMatch (js ''['' @ t) = None"
  by (simp add: colonMatch_def js_def isLabelUnit_def)

text \<open>
  C5. The detector takes the header text from the first rule that matches, in the order
  bracketed, markdown, bold, colon-suffixed (under 50 code units), look-ahead. A line
  \<^verbatim>\<open>[text]:\<close>, with a text that is not empty and has no closing bracket, is matched by
  the bracket rule, which extracts the text; the colon rule does not match it.
\<close>

theorem rule_priority:
  "detectHeader lines i line =
     (if bracketMatch line \<noteq> None then bracketMatch line
      else if mdMatch line \<noteq> None then mdMatch line
      else if boldMatch line \<noteq> None then boldMatch line
      else if colonMatch line \<noteq> None \<and> length line < 50 then colonMatch line
      else if lookAhead lines i line then Some line
      else None) \<and>
   (t \<noteq> [] \<and> cu CHR '']'' \<notin> set t \<longrightarrow>
      bracketMatch (js ''['' @ t @ js '']:'') = Some t \<and>
      colonMatch (js ''['' @ t @ js '']:'') = None \<and>
      detectHeader lines' j (js ''['' @ t @ js '']:'') = Some t)"
proof -
  have "bracketMatch (js ''['' @ t @ js '']:'') = Some t \<and>
      colonMatch (js ''['' @ t @ js '']:'') = None \<and>
      detectHeader lines' j (js ''['' @ t @ js '']:'') = Some t"
    if "t \<noteq> []" "cu CHR '']'' \<notin> set t"
  proof -
    have b: "bracketMatch (js ''['' @ t @ js '']:'') = Some t"
      using that by (simp add: bracketMatch_bracketed)
    then show ?thesis by (simp add: detectHeader_chain colonMatch_bracketed)
  qed
  then show ?thesis using detectHeader_chain[of lines i line] by blast
qed

theorem rule_priority_witness:
  "js ''Foo'' \<noteq> [] \<and> cu CHR '']'' \<notin> set (js ''Foo'') \<and>
   bracketMatch (js ''[Foo]:'') = Some (js ''Foo'') \<and>
   colonMatch (js ''[Foo]:'') = None \<and>
   detectHeader [js ''[Foo]:''] 0 (js ''[Foo]:'') = Some (js ''Foo'')"
  using rule_priority[where t = "js ''Foo''" and lines' = "[js ''[Foo]:'']" and j = 0]
  by (simp add: js_def)

lemma skipBlank_first:
  "(let k = skipBlank lines n in if k < length lines then trim (lines ! k) else []) =
   (case filter (\<lambda>l. l \<noteq> []) (map trim (drop n lines)) of [] \<Rightarrow> [] | l # _ \<Rightarrow> l)"
proof (induction lines n rule: skipBlank.induct)
  case (1 lines n)
  show ?case
  proof (cases "n < length lines")
    case False
    then show ?thesis by (subst skipBlank.simps) simp
  next
    case True
    then have d: "drop n lines = lines ! n # drop (Suc n) lines"
      by (simp add: Cons_nth_drop_Suc)
    show ?thesis
    proof (cases "trim (lines ! n) = []")
      case True
      with \<open>n < length lines\<close> "1.IH" show ?thesis
        by (subst skipBlank.simps) (simp add: d)
    next
      case False
      with \<open>n < length lines\<close> show ?thesis
        by (subst skipBlank.simps) (simp add: d)
    qed
  qed
qed

lemma nextLine_first: "nextLine lines i = firstNonBlankAfter lines i"
  using skipBlank_first[of lines "i + 1"] by (simp add: nextLine_def firstNonBlankAfter_def Let_def)

lemma isDigit_not_bullet: "isDigit c \<Longrightarrow> \<not> isBulletUnit c"
  by (auto simp: isDigit_def isBulletUnit_def)

lemma takeWhile_digits:
  "list_all isDigit ds \<Longrightarrow> takeWhile isDigit (ds @ cu CHR ''.'' # rest) = ds"
  by (induction ds) (auto simp: isDigit_def)

lemma dropWhile_digits:
  "list_all isDigit ds \<Longrightarrow> dropWhile isDigit (ds @ cu CHR ''.'' # rest) = cu CHR ''.'' # rest"
  by (induction ds) (auto simp: isDigit_def)

lemma isListItem_bullet:
  "isBulletUnit c \<Longrightarrow> isListItem (c # cs) \<longleftrightarrow> (\<exists>w r. cs = w # r \<and> isWhiteSpace w)"
  by (cases cs) (simp_all add: isListItem_def)

lemma isListItem_nonbullet:
  "s \<noteq> [] \<Longrightarrow> \<not> isBulletUnit (hd s) \<Longrightarrow>
   isListItem s =
     (takeWhile isDigit s \<noteq> [] \<and>
      (case dropWhile isDigit s of
         p # w # _ \<Rightarrow> p = cu CHR ''.'' \<and> isWhiteSpace w
       | _ \<Rightarrow> False))"
  by (cases s) (simp_all add: isListItem_def Let_def del: takeWhile.simps dropWhile.simps)

lemma isListItem_digits:
  assumes "\<not> isBulletUnit (hd s)"
  shows "isListItem s \<longleftrightarrow>
     (\<exists>ds w r. s = ds @ cu CHR ''.'' # w # r \<and> ds \<noteq> [] \<and> list_all isDigit ds \<and> isWhiteSpace w)"
    (is "?L \<longleftrightarrow> ?D")
proof
  assume L: ?L
  let ?ds = "takeWhile isDigit s" and ?r = "dropWhile isDigit s"
  from L have "s \<noteq> []" by (auto simp: isListItem_def)
  with L assms have "?ds \<noteq> [] \<and> (\<exists>w r. ?r = cu CHR ''.'' # w # r \<and> isWhiteSpace w)"
    by (auto simp: isListItem_nonbullet split: list.splits)
  then obtain w r where
    r: "?ds \<noteq> []" "?r = cu CHR ''.'' # w # r" "isWhiteSpace w" by blast
  have "?ds @ ?r = s" by simp
  then have "s = ?ds @ cu CHR ''.'' # w # r" unfolding r(2) by (rule sym)
  moreover have "list_all isDigit ?ds" by (auto simp: list_all_iff dest: set_takeWhileD)
  ultimately show ?D using r(1,3) by blast
next
  assume ?D
  then obtain ds w r where
    d: "s = ds @ cu CHR ''.'' # w # r" "ds \<noteq> []" "list_all isDigit ds" "isWhiteSpace w"
    by blast
  have t: "takeWhile isDigit s = ds" unfolding d(1) using d(3) by (rule takeWhile_digits)
  have dr: "dropWhile isDigit s = cu CHR ''.'' # w # r"
    unfolding d(1) using d(3) by (rule dropWhile_digits)
  from d(1,2) have "s \<noteq> []" by simp
  then show ?L using assms t dr d(2,4) by (simp add: isListItem_nonbullet)
qed

lemma isListItem_iff:
  "isListItem s \<longleftrightarrow>
     (\<exists>c w r. s = c # w # r \<and> isBulletUnit c \<and> isWhiteSpace w) \<or>
     (\<exists>ds w r. s = ds @ cu CHR ''.'' # w # r \<and> ds \<noteq> [] \<and> list_all isDigit ds \<and> isWhiteSpace w)"
proof (cases s)
  case Nil
  then show ?thesis by (simp add: isListItem_def)
next
  case (Cons c cs)
  show ?thesis
  proof (cases "isBulletUnit c")
    case True
    have "\<not> (\<exists>ds w r. s = ds @ cu CHR ''.'' # w # r \<and> ds \<noteq> [] \<and> list_all isDigit ds \<and> isWhiteSpace w)"
    proof
      assume "\<exists>ds w r. s = ds @ cu CHR ''.'' # w # r \<and> ds \<noteq> [] \<and> list_all isDigit ds \<and> isWhiteSpace w"
      then obtain ds w r where "s = ds @ cu CHR ''.'' # w # r" "ds \<noteq> []" "list_all isDigit ds" by blast
      with Cons have "isDigit c" by (cases ds) auto
      with True show False by (simp add: isDigit_not_bullet)
    qed
    with True Cons show ?thesis by (auto simp: isListItem_bullet)
  next
    case False
    then have "\<not> (\<exists>c w r. s = c # w # r \<and> isBulletUnit c \<and> isWhiteSpace w)"
      using Cons by auto
    moreover have "\<not> isBulletUnit (hd s)" using False Cons by simp
    ultimately show ?thesis using isListItem_digits[of s] by blast
  qed
qed
text \<open>
  C6. On a line that rules 1 to 4 do not match, the detector returns the line itself
  exactly when the next line that is not blank is a list item, the line is not a list
  item, it is shorter than 60 code units and it does not end in a full stop, exclamation
  mark or question mark; otherwise it returns no header. A list item starts with a
  hyphen, asterisk or bullet, or with digits and a full stop, followed by white space.
  On the input of scenario B the line \<open>Bonus 1\<close> opens the scope BONUS 1, which
  receives the list item, and the global scope stays empty.
\<close>

theorem lookahead_rule:
  "(explicitHeader line = None \<longrightarrow>
      detectHeader lines i line =
        (if isListItem (firstNonBlankAfter lines i) \<and> \<not> isListItem line \<and>
            length line < 60 \<and> \<not> isSentenceEnd line
         then Some line else None)) \<and>
   (isListItem s \<longleftrightarrow>
      (\<exists>c w r. s = c # w # r \<and> isBulletUnit c \<and> isWhiteSpace w) \<or>
      (\<exists>ds w r. s = ds @ cu CHR ''.'' # w # r \<and> ds \<noteq> [] \<and> list_all isDigit ds \<and>
                 isWhiteSpace w)) \<and>
   useKnowledgeScoper (Some (js ''Bonus 1'' @ LF # js ''1. Extra credit task'')) =
     Inr \<lparr>scopes = [(GLOBAL_KEY, []), (js ''BONUS 1'', [js ''1. Extra credit task''])],
          availableScopes = [GLOBAL_KEY, js ''BONUS 1'']\<rparr>"
proof (intro conjI impI)
  assume "explicitHeader line = None"
  then show "detectHeader lines i line =
        (if isListItem (firstNonBlankAfter lines i) \<and> \<not> isListItem line \<and>
            length line < 60 \<and> \<not> isSentenceEnd line
         then Some line else None)"
    by (simp add: detectHeader_def lookAhead_def nextLine_first)
next
  show "isListItem s \<longleftrightarrow>
      (\<exists>c w r. s = c # w # r \<and> isBulletUnit c \<and> isWhiteSpace w) \<or>
      (\<exists>ds w r. s = ds @ cu CHR ''.'' # w # r \<and> ds \<noteq> [] \<and> list_all isDigit ds \<and>
                 isWhiteSpace w)"
    by (rule isListItem_iff)
next
  show "useKnowledgeScoper (Some (js ''Bonus 1'' @ LF # js ''1. Extra credit task'')) =
     Inr \<lparr>scopes = [(GLOBAL_KEY, []), (js ''BONUS 1'', [js ''1. Extra credit task''])],
          availableScopes = [GLOBAL_KEY, js ''BONUS 1'']\<rparr>"
    by (simp add: eval_defs)
qed

theorem lookahead_rule_witness:
  "explicitHeader (js ''Bonus 1'') = None \<and>
   detectHeader [js ''Bonus 1'', js ''1. Extra credit task''] 0 (js ''Bonus 1'') =
     Some (js ''Bonus 1'') \<and>
   isListItem (firstNonBlankAfter [js ''Bonus 1'', js ''1. Extra credit task''] 0) \<and>
   detectHeader [js ''Bonus 1'', js ''Extra credit task''] 0 (js ''Bonus 1'') = None"
  using lookahead_rule[where line = "js ''Bonus 1''"
      and lines = "[js ''Bonus 1'', js ''1. Extra credit task'']" and i = 0]
  by (simp add: eval_defs firstNonBlankAfter_def)

text \<open>
  C7. A line that ends in a full stop, exclamation mark or question mark is never made a
  header by the look-ahead rule, whatever follows it: the detector returns what rules 1
  to 4 return. On the input of scenario C both lines are content of the global scope.
\<close>

theorem sentence_not_header:
  "(c = cu CHR ''.'' \<or> c = cu CHR ''!'' \<or> c = cu CHR ''?'' \<longrightarrow>
      \<not> lookAhead lines i (r @ [c]) \<and>
      detectHeader lines i (r @ [c]) = explicitHeader (r @ [c])) \<and>
   useKnowledgeScoper
     (Some (js ''This is a long sentence that ends with punctuation.'' @ LF # js ''- item'')) =
     Inr \<lparr>scopes = [(GLOBAL_KEY, [js ''This is a long sentence that ends with punctuation.'',
                                   js ''- item''])],
          availableScopes = [GLOBAL_KEY]\<rparr>"
proof (intro conjI impI)
  assume c: "c = cu CHR ''.'' \<or> c = cu CHR ''!'' \<or> c = cu CHR ''?''"
  then have "isSentenceEnd (r @ [c])" by (auto simp: isSentenceEnd_def)
  then show "\<not> lookAhead lines i (r @ [c])" by (simp add: lookAhead_def)
  then show "detectHeader lines i (r @ [c]) = explicitHeader (r @ [c])"
    by (simp add: detectHeader_def Let_def)
next
  show "useKnowledgeScoper
     (Some (js ''This is a long sentence that ends with punctuation.'' @ LF # js ''- item'')) =
     Inr \<lparr>scopes = [(GLOBAL_KEY, [js ''This is a long sentence that ends with punctuation.'',
                                   js ''- item''])],
          availableScopes = [GLOBAL_KEY]\<rparr>"
    by (simp add: eval_defs)
qed

theorem sentence_not_header_witness:
  "isListItem (nextLine [js ''A sentence.'', js ''- item''] 0) \<and>
   \<not> lookAhead [js ''A sentence.'', js ''- item''] 0 (js ''A sentence'' @ [cu CHR ''.'']) \<and>
   detectHeader [js ''A sentence.'', js ''- item''] 0 (js ''A sentence'' @ [cu CHR ''.'']) = None \<and>
   detectHeader [js ''A sentence'', js ''- item''] 0 (js ''A sentence'') = Some (js ''A sentence'')"
  using sentence_not_header[where c = "cu CHR ''.''" and r = "js ''A sentence''"
      and lines = "[js ''A sentence.'', js ''- item'']" and i = 0]
  by (simp add: eval_defs)

section \<open>The two revisions\<close>

lemma detectHeader_v2_explicit: "detectHeader_v2 line = explicitHeader line"
  by (simp add: detectHeader_v2_def explicitHeader_def)

lemma detectHeader_without_lookAhead:
  assumes "\<not> (explicitHeader line = None \<and> lookAhead lines i line)"
  shows "detectHeader lines i line = detectHeader_v2 line"
proof (cases "explicitHeader line")
  case None
  with assms show ?thesis by (simp add: detectHeader_def detectHeader_v2_explicit)
next
  case (Some h)
  then have "truthy (explicitHeader line)" by (simp add: explicitHeader_nonempty)
  then show ?thesis by (simp add: detectHeader_def detectHeader_v2_explicit)
qed

lemma scanLines_forEach_v2:
  "(\<And>j. i \<le> j \<Longrightarrow> j < length lines \<Longrightarrow> \<not> lookAheadFires lines j) \<Longrightarrow>
   scanLines lines i st = forEach_v2 (drop i lines) st"
proof (induction lines i st rule: scanLines.induct)
  case (1 lines i st)
  show ?case
  proof (cases "i < length lines")
    case False
    then show ?thesis by (subst scanLines.simps) simp
  next
    case True
    then have d: "drop i lines = lines ! i # drop (i + 1) lines"
      by (simp add: Cons_nth_drop_Suc)
    have nf: "\<not> lookAheadFires lines i" using "1.prems"[of i] True by simp
    have unfold: "scanLines lines i st =
        (case loopBody lines i st of Inl e \<Rightarrow> Inl e | Inr st' \<Rightarrow> scanLines lines (i + 1) st')"
      using True by (subst scanLines.simps) simp
    have rest: "scanLines lines (i + 1) st' = forEach_v2 (drop (i + 1) lines) st'"
      if "loopBody lines i st = Inr st'" for st'
      using "1.IH"[OF True that] "1.prems" by simp
    show ?thesis
    proof (cases "trim (lines ! i) = []")
      case blank: True
      then have "loopBody lines i st = Inr st" by (simp add: loopBody_def)
      with rest[of st] unfold blank show ?thesis by (simp add: d)
    next
      case nonblank: False
      with nf have "detectHeader lines i (trim (lines ! i)) = detectHeader_v2 (trim (lines ! i))"
        by (intro detectHeader_without_lookAhead) (simp add: lookAheadFires_def Let_def)
      with nonblank have lb: "loopBody lines i st =
          applyScoping (detectHeader_v2 (trim (lines ! i))) (trim (lines ! i)) st"
        by (simp add: loopBody_def Let_def)
      let ?a = "applyScoping (detectHeader_v2 (trim (lines ! i))) (trim (lines ! i)) st"
      have fe: "forEach_v2 (drop i lines) st =
          (case ?a of Inl e \<Rightarrow> Inl e | Inr st' \<Rightarrow> forEach_v2 (drop (i + 1) lines) st')"
        using nonblank by (simp add: d Let_def split: sum.splits)
      have sc: "scanLines lines i st =
          (case ?a of Inl e \<Rightarrow> Inl e | Inr st' \<Rightarrow> scanLines lines (i + 1) st')"
        using unfold lb by simp
      show ?thesis
      proof (cases ?a)
        case (Inl e)
        then show ?thesis by (simp add: fe sc)
      next
        case (Inr st')
        then have "loopBody lines i st = Inr st'" using lb by simp
        from rest[OF this] Inr show ?thesis by (simp add: fe sc)
      qed
    qed
  qed
qed

text \<open>
  C10. The v2 parser and the v3 parser return the same result for the absent input, and
  for every string in which the look-ahead rule decides no line: the same scopes table
  and the same order of available scopes.
\<close>

theorem v2_v3_agree:
  "useKnowledgeScoper_v2 None = useKnowledgeScoper None \<and>
   ((\<forall>i < length (split_nl raw). \<not> lookAheadFires (split_nl raw) i) \<longrightarrow>
      useKnowledgeScoper_v2 (Some raw) = useKnowledgeScoper (Some raw))"
proof (intro conjI impI)
  show "useKnowledgeScoper_v2 None = useKnowledgeScoper None"
    by (simp add: useKnowledgeScoper_v2_def useKnowledgeScoper_def)
next
  assume "\<forall>i < length (split_nl raw). \<not> lookAheadFires (split_nl raw) i"
  then have "scanLines (split_nl raw) 0 initialState =
             forEach_v2 (drop 0 (split_nl raw)) initialState"
    by (intro scanLines_forEach_v2) simp
  then show "useKnowledgeScoper_v2 (Some raw) = useKnowledgeScoper (Some raw)"
    by (simp add: useKnowledgeScoper_v2_def useKnowledgeScoper_def)
qed

text \<open>Where the look-ahead rule decides a line the two revisions can differ.\<close>

lemma v2_v3_differ_on_scenario_B:
  "useKnowledgeScoper_v2 (Some (js ''Bonus 1'' @ LF # js ''1. Extra credit task'')) =
     Inr \<lparr>scopes = [(GLOBAL_KEY, [js ''Bonus 1'', js ''1. Extra credit task''])],
          availableScopes = [GLOBAL_KEY]\<rparr> \<and>
   lookAheadFires (split_nl (js ''Bonus 1'' @ LF # js ''1. Extra credit task'')) 0"
  by (simp add: eval_defs lookAheadFires_def)

theorem v2_v3_agree_witness:
  "split_nl (js ''Intro line'' @ LF # js ''[Rules]'' @ LF # js ''- do X'') =
     [js ''Intro line'', js ''[Rules]'', js ''- do X''] \<and>
   \<not> lookAheadFires [js ''Intro line'', js ''[Rules]'', js ''- do X''] 0 \<and>
   \<not> lookAheadFires [js ''Intro line'', js ''[Rules]'', js ''- do X''] 1 \<and>
   \<not> lookAheadFires [js ''Intro line'', js ''[Rules]'', js ''- do X''] 2 \<and>
   useKnowledgeScoper_v2 (Some (js ''Intro line'' @ LF # js ''[Rules]'' @ LF # js ''- do X'')) =
     Inr \<lparr>scopes = [(GLOBAL_KEY, [js ''Intro line'']), (js ''RULES'', [js ''- do X''])],
          availableScopes = [GLOBAL_KEY, js ''RULES'']\<rparr> \<and>
   useKnowledgeScoper (Some (js ''Intro line'' @ LF # js ''[Rules]'' @ LF # js ''- do X'')) =
     Inr \<lparr>scopes = [(GLOBAL_KEY, [js ''Intro line'']), (js ''RULES'', [js ''- do X''])],
          availableScopes = [GLOBAL_KEY, js ''RULES'']\<rparr>"
proof -
  let ?raw = "js ''Intro line'' @ LF # js ''[Rules]'' @ LF # js ''- do X''"
  let ?L = "[js ''Intro line'', js ''[Rules]'', js ''- do X'']"
  have l: "split_nl ?raw = ?L"
    by (simp add: js_def)
  have f: "\<not> lookAheadFires ?L 0" "\<not> lookAheadFires ?L 1" "\<not> lookAheadFires ?L 2"
    by (simp_all add: eval_defs lookAheadFires_def)
  then have h: "\<forall>i < length (split_nl ?raw). \<not> lookAheadFires (split_nl ?raw) i"
    unfolding l by (auto simp: less_Suc_eq numeral_3_eq_3 numeral_2_eq_2)
  have v2: "useKnowledgeScoper_v2 (Some ?raw) =
     Inr \<lparr>scopes = [(GLOBAL_KEY, [js ''Intro line'']), (js ''RULES'', [js ''- do X''])],
          availableScopes = [GLOBAL_KEY, js ''RULES'']\<rparr>"
    by (simp add: eval_defs)
  from v2_v3_agree[of ?raw] h have "useKnowledgeScoper (Some ?raw) = useKnowledgeScoper_v2 (Some ?raw)"
    by simp
  with l f v2 show ?thesis by simp
qed


section \<open>Normalized scope names\<close>

lemma header_opens_scope:
  assumes "scope_inv st" "h \<noteq> []"
    and "normalizeScope h \<noteq> START_KNOWLEDGE" "normalizeScope h \<noteq> END_KNOWLEDGE"
  shows "\<exists>st'. applyScoping (Some h) line st = Inr st' \<and> scope_inv st' \<and>
           currentScope st' = normalizeScope h \<and>
           normalizeScope h \<in> set (keys_of (table st'))"
proof -
  from applyScoping_inv[OF assms(1), of "Some h" line] obtain st' where
    st': "applyScoping (Some h) line st = Inr st'" "scope_inv st'" by blast
  from st'(1) assms(2-4) have "currentScope st' = normalizeScope h"
    by (auto simp: applyScoping_def Let_def split: if_splits)
  with st' show ?thesis by (auto simp: scope_inv_def)
qed

lemma header_of_open_scope:
  assumes "scope_inv st" "h \<noteq> []" "normalizeScope h \<in> set (keys_of (table st))"
  shows "applyScoping (Some h) line st = Inr (st\<lparr>currentScope := normalizeScope h\<rparr>)"
proof -
  from assms(1,3) have "normalizeScope h \<noteq> START_KNOWLEDGE" "normalizeScope h \<noteq> END_KNOWLEDGE"
    by (auto simp: scope_inv_def)
  with assms(2,3) show ?thesis
    by (simp add: applyScoping_def Let_def truthy_get_prop)
qed

lemma content_goes_to_current:
  assumes "map_of (table st) (currentScope st) = Some v"
  shows "applyScoping None line st =
         Inr (st\<lparr>table := set_prop (table st) (currentScope st) (v @ [line])\<rparr>)"
  using assms by (simp add: applyScoping_def push_line_def get_prop_def)

lemma toResult_currentScope: "toResult (st\<lparr>currentScope := k\<rparr>) = toResult st"
  by (simp add: toResult_def)

lemma detectHeader_nonempty:
  "detectHeader lines i line = Some h \<Longrightarrow> line \<noteq> [] \<Longrightarrow> h \<noteq> []"
  by (auto simp: detectHeader_chain split: if_splits
      dest: bracketMatch_nonempty mdMatch_nonempty boldMatch_nonempty colonMatch_nonempty)

lemma applyScoping_keys_grow:
  assumes "scope_inv st" "applyScoping h line st = Inr st'"
  shows "\<exists>ks. keys_of (table st') = keys_of (table st) @ ks"
proof (cases "truthy h")
  case False
  from assms(1) have "currentScope st \<in> set (keys_of (table st))" by (simp add: scope_inv_def)
  from push_line_own[OF this, of line] obtain t where
    "push_line (table st) (currentScope st) line = Inr t" "keys_of t = keys_of (table st)"
    by blast
  with False assms(2) show ?thesis by (cases h) (auto simp: applyScoping_def)
next
  case True
  then obtain t where h: "h = Some t" "t \<noteq> []" by (cases h) auto
  show ?thesis
  proof (cases "normalizeScope t \<in> set (keys_of (table st))")
    case True
    with assms(2) h show ?thesis
      by (auto simp: applyScoping_def Let_def truthy_get_prop split: if_splits)
  next
    case False
    with assms(2) h show ?thesis
      by (auto simp: applyScoping_def Let_def truthy_get_prop keys_of_set_prop_new
          normalizeScope_not_inherited split: if_splits)
  qed
qed

lemma stateAt_Suc:
  "stateAt lines n = Inr st \<Longrightarrow> n < length lines \<Longrightarrow> trim (lines ! n) \<noteq> [] \<Longrightarrow>
   stateAt lines (Suc n) =
     applyScoping (detectHeader lines n (trim (lines ! n))) (trim (lines ! n)) st"
  by (simp add: loopBody_def Let_def)

lemma stateAt_keys_grow:
  assumes "m \<le> n" "stateAt lines m = Inr a" "stateAt lines n = Inr b"
  shows "\<exists>ks. keys_of (table b) = keys_of (table a) @ ks"
  using assms
proof (induction n arbitrary: b rule: dec_induct)
  case base
  then show ?case by simp
next
  case (step n)
  from stateAt_inv[of lines n] obtain c where c: "stateAt lines n = Inr c" "scope_inv c"
    by blast
  from step.IH[OF step.prems(1) c(1)] obtain ks where
    ks: "keys_of (table c) = keys_of (table a) @ ks" ..
  show ?case
  proof (cases "n < length lines \<and> trim (lines ! n) \<noteq> []")
    case False
    with c step.prems(2) have "b = c" by (auto simp: loopBody_def Let_def split: if_splits)
    with ks show ?thesis by blast
  next
    case True
    with c step.prems(2) have
      "applyScoping (detectHeader lines n (trim (lines ! n))) (trim (lines ! n)) c = Inr b"
      by (simp add: loopBody_def Let_def)
    from applyScoping_keys_grow[OF c(2) this] ks show ?thesis by auto
  qed
qed

text \<open>
  Two header lines, at indices \<open>i < j\<close>, whose detected texts normalize to the same key
  (as texts that differ only by case or surrounding white space do), the key being no
  sentinel. After line \<open>i\<close> the key is an own key of the table and the current scope.
  The keys inserted by then are still a prefix of the keys in insertion order when the
  loop reaches \<open>j\<close>, and the keys stay distinct, so there is one entry. Line \<open>j\<close>
  changes nothing but the current scope. A content line that follows is appended to that
  one entry.
\<close>

lemma same_key_one_entry:
  assumes "normalizeScope h2 = normalizeScope h1"
    and "i < j" "j < length lines"
    and "trim (lines ! i) \<noteq> []" "detectHeader lines i (trim (lines ! i)) = Some h1"
    and "trim (lines ! j) \<noteq> []" "detectHeader lines j (trim (lines ! j)) = Some h2"
    and "normalizeScope h1 \<noteq> START_KNOWLEDGE" "normalizeScope h1 \<noteq> END_KNOWLEDGE"
  shows "normalizeScope h2 = normalizeScope h1 \<and>
    (\<exists>a c ks. stateAt lines (Suc i) = Inr a \<and> stateAt lines j = Inr c \<and>
       currentScope a = normalizeScope h1 \<and>
       normalizeScope h1 \<in> set (keys_of (table a)) \<and>
       keys_of (table c) = keys_of (table a) @ ks \<and>
       distinct (keys_of (table c)) \<and>
       stateAt lines (Suc j) = Inr (c\<lparr>currentScope := normalizeScope h1\<rparr>) \<and>
       availableScopes (toResult (c\<lparr>currentScope := normalizeScope h1\<rparr>)) =
         availableScopes (toResult c) \<and>
       (\<forall>v content. map_of (table c) (normalizeScope h1) = Some v \<longrightarrow>
          applyScoping None content (c\<lparr>currentScope := normalizeScope h1\<rparr>) =
            Inr \<lparr>table = set_prop (table c) (normalizeScope h1) (v @ [content]),
                 currentScope = normalizeScope h1\<rparr> \<and>
          keys_of (set_prop (table c) (normalizeScope h1) (v @ [content])) =
            keys_of (table c)))"
proof -
  let ?k = "normalizeScope h1"
  have e: "normalizeScope h2 = ?k" using assms(1) by simp
  have ne: "h1 \<noteq> []" "h2 \<noteq> []"
    using assms(4-7) by (auto dest: detectHeader_nonempty)
  from stateAt_inv[of lines i] obtain a0 where
    a0: "stateAt lines i = Inr a0" "scope_inv a0" by blast
  from header_opens_scope[OF a0(2) ne(1) assms(8,9), of "trim (lines ! i)"] obtain a where
    a: "applyScoping (Some h1) (trim (lines ! i)) a0 = Inr a" "scope_inv a"
       "currentScope a = ?k" "?k \<in> set (keys_of (table a))" by blast
  have sa: "stateAt lines (Suc i) = Inr a"
    using stateAt_Suc[OF a0(1)] assms(2-5) a(1) by simp
  from stateAt_inv[of lines j] obtain c where
    c: "stateAt lines j = Inr c" "scope_inv c" by blast
  from stateAt_keys_grow[OF _ sa c(1)] assms(2) obtain ks where
    ks: "keys_of (table c) = keys_of (table a) @ ks" by auto
  with a(4) have own: "?k \<in> set (keys_of (table c))" by simp
  have "applyScoping (Some h2) (trim (lines ! j)) c = Inr (c\<lparr>currentScope := ?k\<rparr>)"
    using header_of_open_scope[OF c(2) ne(2), of "trim (lines ! j)"] own by (simp add: e)
  then have sb: "stateAt lines (Suc j) = Inr (c\<lparr>currentScope := ?k\<rparr>)"
    using stateAt_Suc[OF c(1) assms(3,6)] assms(7) by simp
  have content: "applyScoping None content (c\<lparr>currentScope := ?k\<rparr>) =
            Inr \<lparr>table = set_prop (table c) ?k (v @ [content]), currentScope = ?k\<rparr> \<and>
          keys_of (set_prop (table c) ?k (v @ [content])) = keys_of (table c)"
    if "map_of (table c) ?k = Some v" for v content
    using content_goes_to_current[of "c\<lparr>currentScope := ?k\<rparr>" v content] that
      keys_of_set_prop_own[OF own] by simp
  have "distinct (keys_of (table c))" using c(2) by (simp add: scope_inv_def)
  with e sa c(1) a(3,4) ks sb content show ?thesis
    by (simp add: toResult_currentScope)
qed




text \<open>Header texts that differ by the case of a letter outside ASCII share one entry.\<close>

lemma case_variants_share_entry:
  "useKnowledgeScoper
     (Some (js ''[Caf'' @ 0xE9 # js '']'' @ LF # js ''- a'' @ LF # js ''## Other'' @ LF #
            js ''- b'' @ LF # js ''[ CAF'' @ 0xC9 # js '' ]:'' @ LF # js ''- c'')) =
     Inr \<lparr>scopes = [(GLOBAL_KEY, []), (js ''CAF'' @ [0xC9], [js ''- a'', js ''- c'']),
                    (js ''OTHER'', [js ''- b''])],
          availableScopes = [GLOBAL_KEY, js ''CAF'' @ [0xC9], js ''OTHER'']\<rparr>"
  by (simp add: eval_defs)

text \<open>
  C9 at the input \<^verbatim>\<open>"[2]\n- a\n[1]\n- b\n[ 2 ]\n- c"\<close>. The headers \<open>[2]\<close> and
  \<open>[ 2 ]\<close> normalize to the same key and their content lines \<open>- a\<close> and \<open>- c\<close>
  share one entry. After the first of them, as on the input \<^verbatim>\<open>"[2]\n- a"\<close>, that entry
  is the first of the available scopes. In the result of the whole input it is the
  second: \<^verbatim>\<open>Object.keys\<close> lists the array index \<open>1\<close>, opened between the two
  occurrences, before it, and both before the global scope.
\<close>

theorem collapsed_entry_moves:
  "useKnowledgeScoper (Some (js ''[2]'' @ LF # js ''- a'')) =
     Inr \<lparr>scopes = [(GLOBAL_KEY, []), (js ''2'', [js ''- a''])],
          availableScopes = [js ''2'', GLOBAL_KEY]\<rparr> \<and>
   useKnowledgeScoper
     (Some (js ''[2]'' @ LF # js ''- a'' @ LF # js ''[1]'' @ LF # js ''- b'' @ LF #
            js ''[ 2 ]'' @ LF # js ''- c'')) =
     Inr \<lparr>scopes = [(GLOBAL_KEY, []), (js ''2'', [js ''- a'', js ''- c'']),
                    (js ''1'', [js ''- b''])],
          availableScopes = [js ''1'', js ''2'', GLOBAL_KEY]\<rparr>"
  by (simp add: eval_defs)

end
